theory Spec2Isabelle
  imports Complex_Main
begin

section \<open>Common notions\<close>

text \<open>
  A \<open>time.Time\<close> is an instant counted in nanoseconds from the Unix epoch; a
  \<open>time.Duration\<close> is a number of nanoseconds. The zero value of \<open>time.Time\<close> is the
  first instant of year 1, which is 62135596800 seconds before the epoch. A call of a Go
  function either returns a value or panics.
\<close>

type_synonym time = int
type_synonym duration = int

datatype 'a outcome = Returned 'a | Panicked

definition Second :: duration where
  "Second = 1000000000"

definition Millisecond :: duration where
  "Millisecond = 1000000"

definition Minute :: duration where
  "Minute = 60 * Second"

definition Hour :: duration where
  "Hour = 60 * Minute"

definition zeroTime :: time where
  "zeroTime = - 62135596800 * Second"

definition IsZero :: "time \<Rightarrow> bool" where
  "IsZero t = (t = zeroTime)"

definition Unix :: "time \<Rightarrow> int" where
  "Unix t = t div Second"

definition Since :: "time \<Rightarrow> time \<Rightarrow> duration" where
  "Since now t = now - t"

section \<open>monitor/cache.go: the single-flight cache cell\<close>

record 'a CachedValue =
  value_c :: 'a
  last_c :: time
  ttl :: duration
  fetching :: bool

definition NewCachedValue :: "'a \<Rightarrow> duration \<Rightarrow> 'a CachedValue" where
  "NewCachedValue zero d = \<lparr>value_c = zero, last_c = zeroTime, ttl = d, fetching = False\<rparr>"

text \<open>
  The test of line 22: the cell holds a value fetched less than its TTL ago.
\<close>

definition fresh :: "'a CachedValue \<Rightarrow> time \<Rightarrow> bool" where
  "fresh c now = (\<not> IsZero (last_c c) \<and> Since now (last_c c) < ttl c)"

text \<open>
  The first critical section of \<open>Get\<close> (lines 21 to 34): the caller leaves with the stored
  value, or becomes the fetcher and leaves the cell with the flag set.
\<close>

datatype 'a entered = Serve 'a | Fetch "'a CachedValue"

definition Get_enter :: "'a CachedValue \<Rightarrow> time \<Rightarrow> 'a entered" where
  "Get_enter c now =
     (if fresh c now then Serve (value_c c)
      else if fetching c then Serve (value_c c)
      else Fetch (c\<lparr>fetching := True\<rparr>))"

text \<open>The second critical section (lines 38 to 42), reached when \<open>fetch\<close> has returned.\<close>

definition Get_store :: "'a CachedValue \<Rightarrow> 'a \<Rightarrow> time \<Rightarrow> 'a CachedValue" where
  "Get_store c result now = c\<lparr>value_c := result, last_c := now, fetching := False\<rparr>"

text \<open>
  \<open>Get\<close> as one caller runs it. \<open>fetch\<close> works on a world \<open>'w\<close> of its own, so that
  a call of it is visible; \<open>now1\<close> is the clock at line 22 and \<open>now2\<close> the clock at line 40.
  When \<open>fetch\<close> panics the panic unwinds \<open>Get\<close>: lines 38 to 43 are not run, and the cell
  stays as the first critical section left it.
\<close>

definition Get :: "'a CachedValue \<Rightarrow> time \<Rightarrow> time \<Rightarrow> ('w \<Rightarrow> 'a outcome \<times> 'w) \<Rightarrow> 'w
    \<Rightarrow> 'a outcome \<times> 'a CachedValue \<times> 'w" where
  "Get c now1 now2 fetch w =
     (case Get_enter c now1 of
        Serve v \<Rightarrow> (Returned v, c, w)
      | Fetch c1 \<Rightarrow>
          (case fetch w of
             (Panicked, w') \<Rightarrow> (Panicked, c1, w')
           | (Returned result, w') \<Rightarrow> (Returned result, Get_store c1 result now2, w')))"

section \<open>server/handler.go: the snapshot aggregator\<close>

text \<open>
  \<open>AllMetrics\<close> has one field per metric category, the capture time in milliseconds and the
  viewer count. The fourteen category types of package \<open>monitor\<close> differ only in their
  payload, which the aggregator never inspects: they are one type \<open>'v\<close> here, whose \<open>0\<close> is
  the Go zero value.
\<close>

record 'v AllMetrics =
  CPU :: 'v
  Memory :: 'v
  Disks :: 'v
  StorageBreak :: 'v
  DiskIO :: 'v
  Network :: 'v
  Battery :: 'v
  Processes :: 'v
  System :: 'v
  Thermal :: 'v
  GPU :: 'v
  Security :: 'v
  Connect :: 'v
  Health :: 'v
  Timestamp :: int
  ClientCount :: int

definition zeroAllMetrics :: "('v::zero) AllMetrics" where
  "zeroAllMetrics =
     \<lparr>CPU = 0, Memory = 0, Disks = 0, StorageBreak = 0, DiskIO = 0, Network = 0, Battery = 0,
      Processes = 0, System = 0, Thermal = 0, GPU = 0, Security = 0, Connect = 0, Health = 0,
      Timestamp = 0, ClientCount = 0\<rparr>"

text \<open>
  The fourteen tasks handed to \<open>safeGo\<close> on lines 67 to 80, in the order of the source:
  \<open>Task_X\<close> is the closure that calls \<open>monitor.GetX\<close>.
\<close>

datatype task =
  Task_CPU | Task_Memory | Task_Disks | Task_StorageBreakdown | Task_DiskIO | Task_Network | Task_Battery
  | Task_Processes | Task_System | Task_Thermal | Task_GPU | Task_Security | Task_Connectivity | Task_Health

definition tasks :: "task list" where
  "tasks =
     [Task_CPU, Task_Memory, Task_Disks, Task_StorageBreakdown, Task_DiskIO, Task_Network, Task_Battery,
      Task_Processes, Task_System, Task_Thermal, Task_GPU, Task_Security, Task_Connectivity, Task_Health]"

text \<open>The field that the closure of a provider assigns, and the reading of that field.\<close>

fun assign :: "task \<Rightarrow> 'v \<Rightarrow> 'v AllMetrics \<Rightarrow> 'v AllMetrics" where
  "assign Task_CPU v m = m\<lparr>CPU := v\<rparr>"
| "assign Task_Memory v m = m\<lparr>Memory := v\<rparr>"
| "assign Task_Disks v m = m\<lparr>Disks := v\<rparr>"
| "assign Task_StorageBreakdown v m = m\<lparr>StorageBreak := v\<rparr>"
| "assign Task_DiskIO v m = m\<lparr>DiskIO := v\<rparr>"
| "assign Task_Network v m = m\<lparr>Network := v\<rparr>"
| "assign Task_Battery v m = m\<lparr>Battery := v\<rparr>"
| "assign Task_Processes v m = m\<lparr>Processes := v\<rparr>"
| "assign Task_System v m = m\<lparr>System := v\<rparr>"
| "assign Task_Thermal v m = m\<lparr>Thermal := v\<rparr>"
| "assign Task_GPU v m = m\<lparr>GPU := v\<rparr>"
| "assign Task_Security v m = m\<lparr>Security := v\<rparr>"
| "assign Task_Connectivity v m = m\<lparr>Connect := v\<rparr>"
| "assign Task_Health v m = m\<lparr>Health := v\<rparr>"

fun category :: "task \<Rightarrow> 'v AllMetrics \<Rightarrow> 'v" where
  "category Task_CPU m = CPU m"
| "category Task_Memory m = Memory m"
| "category Task_Disks m = Disks m"
| "category Task_StorageBreakdown m = StorageBreak m"
| "category Task_DiskIO m = DiskIO m"
| "category Task_Network m = Network m"
| "category Task_Battery m = Battery m"
| "category Task_Processes m = Processes m"
| "category Task_System m = System m"
| "category Task_Thermal m = Thermal m"
| "category Task_GPU m = GPU m"
| "category Task_Security m = Security m"
| "category Task_Connectivity m = Connect m"
| "category Task_Health m = Health m"

text \<open>
  The closure \<open>func() { m.X = monitor.GetX() }\<close>: the provider is called first, and when it
  panics the assignment is not run.
\<close>

definition closure :: "task \<Rightarrow> 'v outcome \<Rightarrow> 'v AllMetrics \<Rightarrow> 'v AllMetrics outcome" where
  "closure p r m = (case r of Returned v \<Rightarrow> Returned (assign p v m) | Panicked \<Rightarrow> Panicked)"

text \<open>
  What the goroutines of one \<open>CollectAll\<close> share: the struct \<open>m\<close>, the counter of the
  \<open>WaitGroup\<close> and the lines written to the log.
\<close>

record 'v collecting =
  metrics :: "'v AllMetrics"
  wg :: int
  panics_logged :: nat

text \<open>
  The goroutine that \<open>safeGo\<close> starts, run to its end: \<open>fn\<close> is called, a panic of it is
  recovered and logged, and \<open>wg.Done\<close> is deferred, so it runs either way.
\<close>

definition safeGo :: "('v AllMetrics \<Rightarrow> 'v AllMetrics outcome) \<Rightarrow> 'v collecting \<Rightarrow> 'v collecting" where
  "safeGo fn s =
     (case fn (metrics s) of
        Returned m' \<Rightarrow> s\<lparr>metrics := m', wg := wg s - 1\<rparr>
      | Panicked \<Rightarrow> s\<lparr>wg := wg s - 1, panics_logged := Suc (panics_logged s)\<rparr>)"

text \<open>
  The goroutines run concurrently; each one writes a field of its own, once. A schedule
  \<open>sched\<close> lists the providers in the order in which their goroutines finish, and
  \<open>run_tasks\<close> runs the goroutines of a schedule from \<open>wg.Add(14)\<close> on.
\<close>

definition run_tasks :: "(task \<Rightarrow> 'v outcome) \<Rightarrow> task list \<Rightarrow> ('v::zero) collecting" where
  "run_tasks run sched =
     fold (\<lambda>p. safeGo (closure p (run p))) sched
       \<lparr>metrics = zeroAllMetrics, wg = 14, panics_logged = 0\<rparr>"

text \<open>
  \<open>wg.Wait\<close> returns when the counter is 0 and blocks otherwise: \<open>CollectAll\<close> returns
  \<open>None\<close> when the goroutines of the schedule leave the counter above 0.
\<close>

definition CollectAll :: "(task \<Rightarrow> 'v outcome) \<Rightarrow> task list \<Rightarrow> int \<Rightarrow> int
    \<Rightarrow> ('v::zero) AllMetrics option" where
  "CollectAll run sched now_ms clientCount =
     (let s = run_tasks run sched in
      if wg s = 0 then Some ((metrics s)\<lparr>Timestamp := now_ms, ClientCount := clientCount\<rparr>)
      else None)"

section \<open>server/handler.go: the broadcast hub\<close>

text \<open>
  A buffered channel: the messages waiting in it, its capacity and whether it has been
  closed. A \<open>select\<close> with a send and a \<open>default\<close> enqueues when there is room, takes the
  default when the buffer is full, and panics on a closed channel; \<open>close\<close> panics on a
  closed channel.
\<close>

record 'pm chan =
  buf :: "'pm list"
  cap :: nat
  closed :: bool

definition make_chan :: "nat \<Rightarrow> 'pm chan" where
  "make_chan n = \<lparr>buf = [], cap = n, closed = False\<rparr>"

datatype 'pm sent = Enqueued "'pm chan" | Default | SendOnClosed

definition try_send :: "'pm chan \<Rightarrow> 'pm \<Rightarrow> 'pm sent" where
  "try_send ch pm =
     (if closed ch then SendOnClosed
      else if length (buf ch) < cap ch then Enqueued (ch\<lparr>buf := buf ch @ [pm]\<rparr>)
      else Default)"

definition close_chan :: "'pm chan \<Rightarrow> 'pm chan outcome" where
  "close_chan ch = (if closed ch then Panicked else Returned (ch\<lparr>closed := True\<rparr>))"

text \<open>
  A \<open>*Client\<close> is known by its address. The hub holds the keys of \<open>h.clients\<close> (the values
  of that map are all \<open>true\<close>) in the order in which a \<open>range\<close> over the map meets them,
  which Go leaves open; \<open>send\<close> is the \<open>send\<close> channel of each client, and \<open>ticker\<close>
  the period of \<open>h.ticker\<close>.
\<close>

type_synonym client = nat

record 'pm Hub =
  clients :: "client list"
  send :: "client \<Rightarrow> 'pm chan"
  ticker :: duration

definition NewHub :: "(client \<Rightarrow> 'pm chan) \<Rightarrow> 'pm Hub" where
  "NewHub chans = \<lparr>clients = [], send = chans, ticker = 1 * Second\<rparr>"

text \<open>The \<open>register\<close> and \<open>unregister\<close> cases of \<open>Run\<close> (lines 380 to 391).\<close>

definition register :: "client \<Rightarrow> 'pm Hub \<Rightarrow> 'pm Hub" where
  "register c h = (if c \<in> set (clients h) then h else h\<lparr>clients := clients h @ [c]\<rparr>)"

definition unregister :: "client \<Rightarrow> 'pm Hub \<Rightarrow> 'pm Hub outcome" where
  "unregister c h =
     (if c \<in> set (clients h) then
        (case close_chan (send h c) of
           Panicked \<Rightarrow> Panicked
         | Returned ch \<Rightarrow> Returned (h\<lparr>clients := removeAll c (clients h), send := (send h)(c := ch)\<rparr>))
      else Returned h)"

text \<open>
  The \<open>incoming\<close> case (lines 393 to 408). \<open>json.Unmarshal\<close> into the struct
  \<open>{Action string; Rate int}\<close> belongs to the standard library: it is the parameter
  \<open>unmarshal\<close>, which gives \<open>None\<close> for an error.
\<close>

record cmd =
  Action :: string
  Rate :: int

definition incoming :: "('msg \<Rightarrow> cmd option) \<Rightarrow> 'msg \<Rightarrow> 'pm Hub \<Rightarrow> 'pm Hub" where
  "incoming unmarshal msg h =
     (case unmarshal msg of
        None \<Rightarrow> h
      | Some c \<Rightarrow>
          (if Action c = ''set_rate'' then
             (if Rate c \<ge> 250 \<and> Rate c \<le> 10000 then h\<lparr>ticker := Rate c * Millisecond\<rparr> else h)
           else h))"

text \<open>
  The tick case (lines 410 to 440). \<open>CollectAll\<close>, \<open>json.Marshal\<close> and
  \<open>websocket.NewPreparedMessage\<close> are parameters, and the calls made to them are
  recorded. A panic in the loop is not recovered by \<open>Run\<close>.
\<close>

datatype call = Call_CollectAll nat | Call_Marshal | Call_NewPreparedMessage

fun broadcast :: "'pm \<Rightarrow> client list \<Rightarrow> 'pm Hub \<Rightarrow> 'pm Hub outcome" where
  "broadcast pm [] h = Returned h"
| "broadcast pm (c # cs) h =
     (case try_send (send h c) pm of
        Enqueued ch \<Rightarrow> broadcast pm cs (h\<lparr>send := (send h)(c := ch)\<rparr>)
      | Default \<Rightarrow>
          (case close_chan (send h c) of
             Panicked \<Rightarrow> Panicked
           | Returned ch \<Rightarrow>
               broadcast pm cs (h\<lparr>send := (send h)(c := ch), clients := removeAll c (clients h)\<rparr>))
      | SendOnClosed \<Rightarrow> Panicked)"

definition tick :: "(nat \<Rightarrow> 'm) \<Rightarrow> ('m \<Rightarrow> 'b option) \<Rightarrow> ('b \<Rightarrow> 'pm option) \<Rightarrow> 'pm Hub
    \<Rightarrow> 'pm Hub outcome \<times> call list" where
  "tick collect marshal prepare h =
     (let count = length (clients h) in
      if count > 0 then
        (case marshal (collect count) of
           None \<Rightarrow> (Returned h, [Call_CollectAll count, Call_Marshal])
         | Some data \<Rightarrow>
             (case prepare data of
                None \<Rightarrow>
                  (Returned h, [Call_CollectAll count, Call_Marshal, Call_NewPreparedMessage])
              | Some pm \<Rightarrow>
                  (broadcast pm (clients h) h,
                   [Call_CollectAll count, Call_Marshal, Call_NewPreparedMessage])))
      else (Returned h, []))"

text \<open>Whether the queue of a client has room, and what the hub requires of its registry.\<close>

definition has_room :: "'pm Hub \<Rightarrow> client \<Rightarrow> bool" where
  "has_room h c = (length (buf (send h c)) < cap (send h c))"

definition registry_ok :: "'pm Hub \<Rightarrow> bool" where
  "registry_ok h = (distinct (clients h) \<and> list_all (\<lambda>c. \<not> closed (send h c)) (clients h))"

section \<open>monitor/process.go: the process tracker\<close>

text \<open>
  A \<open>*cachedProc\<close> is an address: \<open>Nil\<close>, or \<open>Addr a\<close> for the object at index \<open>a\<close> of the
  store of \<open>cachedProc\<close> objects, which only grows. Reading through \<open>Nil\<close> or through an
  address outside the store is a panic. The numbers of a row are \<open>float64\<close> values that the
  tracker only copies: they are of a type \<open>'f\<close> whose \<open>0\<close> is the Go zero value.
\<close>

type_synonym pid = int

datatype ref = Nil | Addr nat

record 'f ProcessInfo =
  PID :: int
  Name :: string
  CPU_p :: 'f
  MemMB :: 'f
  MemPct :: 'f
  User :: string

record cachedProc =
  proc :: pid
  name :: string
  user :: string

definition deref :: "cachedProc list \<Rightarrow> ref \<Rightarrow> cachedProc option" where
  "deref store r =
     (case r of Nil \<Rightarrow> None | Addr a \<Rightarrow> (if a < length store then Some (store ! a) else None))"

text \<open>
  What the operating system answers during one pass: \<open>process.Pids\<close> (\<open>None\<close> for an
  error), whether \<open>process.NewProcess\<close> succeeds, \<open>Name\<close> (the empty string on an error),
  \<open>Cmdline\<close> (\<open>None\<close> for an error), \<open>Username\<close>, and the sampling of lines 164 to 183:
  the sanitized CPU share, the resident memory in MB and its share of the total memory,
  or the error of \<open>MemoryInfo\<close>, or a panic.
\<close>

datatype 'f sampled = Sample 'f 'f 'f | MemoryInfo_error | Sample_panic

record 'f os =
  Pids :: "pid list option"
  NewProcess :: "pid \<Rightarrow> bool"
  Name_of :: "pid \<Rightarrow> string"
  Cmdline :: "pid \<Rightarrow> string option"
  Username :: "pid \<Rightarrow> string"
  Sampling :: "pid \<Rightarrow> 'f sampled"

definition isSpace :: "char \<Rightarrow> bool" where
  "isSpace c = (c \<in> set [CHR '' '', CHR 0x09, CHR 0x0A, CHR 0x0B, CHR 0x0C, CHR 0x0D])"

text \<open>\<open>strings.Fields(cmd)[0]\<close>, or the empty string when \<open>cmd\<close> has no field.\<close>

definition first_field :: "string \<Rightarrow> string" where
  "first_field cmd = takeWhile (\<lambda>c. \<not> isSpace c) (dropWhile isSpace cmd)"

text \<open>The part of a name after its last \<open>/\<close>; the whole name when it has none.\<close>

definition after_last_slash :: "string \<Rightarrow> string" where
  "after_last_slash s = rev (takeWhile (\<lambda>c. c \<noteq> CHR ''/'') (rev s))"

text \<open>The display name of a new record (lines 134 to 154).\<close>

definition resolve_name :: "'f os \<Rightarrow> pid \<Rightarrow> string" where
  "resolve_name env p =
     (let n0 = Name_of env p;
          n1 = (if n0 = [] then
                  (case Cmdline env p of
                     None \<Rightarrow> n0
                   | Some c \<Rightarrow> (if first_field c = [] then n0 else after_last_slash (first_field c)))
                else n0);
          n2 = (if n1 = [] then ''unknown'' else n1)
      in after_last_slash n2)"

text \<open>The struct that \<open>processOnePID\<close> returns, and its zero value.\<close>

record 'f result =
  info :: "'f ProcessInfo"
  pid_r :: pid
  cp :: ref
  isNew :: bool

definition zero_result :: "('f::zero) result" where
  "zero_result =
     \<lparr>info = \<lparr>PID = 0, Name = [], CPU_p = 0, MemMB = 0, MemPct = 0, User = []\<rparr>,
      pid_r = 0, cp = Nil, isNew = False\<rparr>"

text \<open>
  Lines 164 to 188 for the record at \<open>r\<close>. A panic is recovered by the deferred function,
  which makes the result the zero value.
\<close>

definition sample_row :: "'f os \<Rightarrow> pid \<Rightarrow> ref \<Rightarrow> bool \<Rightarrow> cachedProc list \<Rightarrow> ('f::zero) result" where
  "sample_row env p r new store =
     (case deref store r of
        None \<Rightarrow> zero_result
      | Some c \<Rightarrow>
          (case Sampling env p of
             Sample cpu mb pct \<Rightarrow>
               \<lparr>info = \<lparr>PID = p, Name = name c, CPU_p = cpu, MemMB = mb, MemPct = pct, User = user c\<rparr>,
                pid_r = p, cp = r, isNew = new\<rparr>
           | MemoryInfo_error \<Rightarrow> zero_result
           | Sample_panic \<Rightarrow> zero_result))"

text \<open>
  \<open>processOnePID\<close> gives its result, the store after it, and the process ids whose name
  and owner it resolved (none or one).
\<close>

definition processOnePID :: "'f os \<Rightarrow> pid \<Rightarrow> (pid \<rightharpoonup> ref) \<Rightarrow> cachedProc list
    \<Rightarrow> ('f::zero) result \<times> cachedProc list \<times> pid list" where
  "processOnePID env p cacheSnapshot store =
     (case cacheSnapshot p of
        Some r \<Rightarrow> (sample_row env p r False store, store, [])
      | None \<Rightarrow>
          (if \<not> NewProcess env p then (zero_result, store, [])
           else
             (let store' = store @ [\<lparr>proc = p, name = resolve_name env p, user = Username env p\<rparr>]
              in (sample_row env p (Addr (length store)) True store', store', [p]))))"

text \<open>What the loop of lines 68 to 76 carries.\<close>

record 'f pass =
  pInfos :: "'f ProcessInfo list"
  newEntries :: "pid \<rightharpoonup> ref"
  objects :: "cachedProc list"
  resolved :: "pid list"

definition visit :: "'f os \<Rightarrow> (pid \<rightharpoonup> ref) \<Rightarrow> pid \<Rightarrow> ('f::zero) pass \<Rightarrow> 'f pass" where
  "visit env cacheSnapshot p acc =
     (case processOnePID env p cacheSnapshot (objects acc) of
        (r, store', tr) \<Rightarrow>
          (let acc' = acc\<lparr>objects := store', resolved := resolved acc @ tr\<rparr> in
           if pid_r r \<noteq> 0 then
             acc'\<lparr>pInfos := pInfos acc @ [info r],
                  newEntries := (if isNew r then (newEntries acc)(pid_r r \<mapsto> cp r) else newEntries acc)\<rparr>
           else acc'))"

text \<open>
  The state of the tracker: \<open>procCache\<close>, the store of the records, and \<open>cachedProcs\<close>.
  \<open>GetProcesses\<close> is given whether \<open>TryLock\<close> succeeded; it gives the rows (before the final
  sort by CPU share and the cut to 25 rows), the new state, and the process ids resolved
  during the pass.
\<close>

record 'f tracker =
  procCache :: "pid \<rightharpoonup> ref"
  heap :: "cachedProc list"
  cachedProcs :: "'f ProcessInfo list"

definition GetProcesses :: "bool \<Rightarrow> 'f os \<Rightarrow> ('f::zero) tracker
    \<Rightarrow> 'f ProcessInfo list \<times> 'f tracker \<times> pid list" where
  "GetProcesses locked env t =
     (if \<not> locked then (cachedProcs t, t, [])
      else
        (case Pids env of
           None \<Rightarrow> ([], t, [])
         | Some pids \<Rightarrow>
             (let acc = fold (visit env (procCache t)) pids
                          \<lparr>pInfos = [], newEntries = Map.empty, objects = heap t, resolved = []\<rparr>
              in (pInfos acc,
                  \<lparr>procCache = (procCache t ++ newEntries acc) |` set pids,
                   heap = objects acc,
                   cachedProcs = pInfos acc\<rparr>,
                  resolved acc))))"

section \<open>The storage breakdown\<close>

text \<open>
  \<open>updateBreakdown\<close> and \<open>GetStorageBreakdown\<close>, from the file of package \<open>monitor\<close> that
  also holds \<open>GetDisks\<close>. A \<open>float64\<close> is a real number here: rounding, infinities and NaN
  are left out. An \<open>int64\<close> is an integer, and the one subtraction of two of them wraps.
\<close>

record DiskInfo =
  Filesystem :: string
  MountPoint :: string
  TotalGB_d :: real
  UsedGB_d :: real
  FreeGB_d :: real
  UsedPct :: real

record StorageCategory =
  Name_c :: string
  Size :: real
  Icon :: string

record StorageBreakdown =
  TotalGB :: real
  UsedGB :: real
  FreeGB :: real
  PurgeableGB :: real
  Categories :: "StorageCategory list"

record apfsContainerInfo =
  TotalBytes :: int
  UsedBytes :: int
  FreeBytes :: int
  PurgeableBytes :: int

definition int64 :: "int \<Rightarrow> int" where
  "int64 x = (x + 2 ^ 63) mod 2 ^ 64 - 2 ^ 63"

definition toGB :: real where
  "toGB = 1000000000"

text \<open>
  The loop over the disks in the first two tiers (lines 313 to 324 and 348 to 358), on
  the pair \<open>(systemUsed, dataUsed)\<close>.
\<close>

definition scan_disk :: "real \<Rightarrow> DiskInfo \<Rightarrow> real \<times> real \<Rightarrow> real \<times> real" where
  "scan_disk purgeable d acc =
     (if MountPoint d = ''/'' then (UsedGB_d d, snd acc)
      else if MountPoint d = ''/System/Volumes/Data'' then
        (let dataUsed = UsedGB_d d - purgeable in (fst acc, if dataUsed < 0 then 0 else dataUsed))
      else acc)"

text \<open>
  The loop of the third tier (lines 375 to 383), on \<open>(total, free, systemUsed, dataUsed)\<close>.
\<close>

definition scan_disk_df :: "DiskInfo \<Rightarrow> real \<times> real \<times> real \<times> real \<Rightarrow> real \<times> real \<times> real \<times> real" where
  "scan_disk_df d acc =
     (case acc of (total', free', systemUsed, dataUsed) \<Rightarrow>
        (if MountPoint d = ''/'' then (TotalGB_d d, FreeGB_d d, UsedGB_d d, dataUsed)
         else if MountPoint d = ''/System/Volumes/Data'' then (total', free', systemUsed, UsedGB_d d)
         else acc))"

text \<open>The categories that all three tiers append before the free space.\<close>

definition used_categories :: "real \<Rightarrow> real \<Rightarrow> real \<Rightarrow> StorageCategory list" where
  "used_categories systemUsed dataUsed used =
     (if systemUsed > 0 then [\<lparr>Name_c = ''macOS'', Size = systemUsed, Icon = ''system''\<rparr>] else [])
     @ (if dataUsed > 0 then [\<lparr>Name_c = ''Data'', Size = dataUsed, Icon = ''apps''\<rparr>] else [])
     @ (if used > systemUsed + dataUsed + 1 then
          [\<lparr>Name_c = ''Other'', Size = used - (systemUsed + dataUsed), Icon = ''doc''\<rparr>]
        else [])"

text \<open>
  The breakdown that \<open>updateBreakdown\<close> stores, from what it reads: the disks of
  \<open>GetDisks\<close>, the three figures of \<open>getFoundationStorageBytes\<close>, and the answer of
  \<open>getAPFSContainerInfo\<close> (\<open>None\<close> when that is not ok).
\<close>

definition breakdown_of :: "DiskInfo list \<Rightarrow> int \<times> int \<times> int \<Rightarrow> apfsContainerInfo option
    \<Rightarrow> StorageBreakdown" where
  "breakdown_of disks found container =
     (case found of (foundTotal, foundBasic, foundOpport) \<Rightarrow>
        if foundTotal > 0 \<and> foundOpport > 0 then
          (let total' = real_of_int foundTotal / toGB;
               p = real_of_int (int64 (foundOpport - foundBasic)) / toGB;
               purgeable = (if p < 0 then 0 else p);
               free' = real_of_int foundOpport / toGB;
               used = total' - free';
               (systemUsed, dataUsed) = fold (scan_disk purgeable) disks (0, 0)
           in \<lparr>TotalGB = total', UsedGB = used, FreeGB = free', PurgeableGB = purgeable,
               Categories = used_categories systemUsed dataUsed used
                 @ [\<lparr>Name_c = ''Free'', Size = free', Icon = ''free''\<rparr>]\<rparr>)
        else
          (case (case container of None \<Rightarrow> None
                 | Some c \<Rightarrow> (if TotalBytes c > 0 then Some c else None)) of
             Some c \<Rightarrow>
               (let total' = real_of_int (TotalBytes c) / toGB;
                    purgeable = real_of_int (PurgeableBytes c) / toGB;
                    basicFreeBytes = real_of_int (FreeBytes c) / toGB;
                    free' = basicFreeBytes + purgeable;
                    used = total' - free';
                    (systemUsed, dataUsed) = fold (scan_disk purgeable) disks (0, 0)
                in \<lparr>TotalGB = total', UsedGB = used, FreeGB = free', PurgeableGB = purgeable,
                    Categories = used_categories systemUsed dataUsed used
                      @ (if purgeable > 1 / 2 then
                           [\<lparr>Name_c = ''Purgeable'', Size = purgeable, Icon = ''snapshot''\<rparr>]
                         else [])
                      @ [\<lparr>Name_c = ''Free'', Size = basicFreeBytes, Icon = ''free''\<rparr>]\<rparr>)
           | None \<Rightarrow>
               (case fold scan_disk_df disks (0, 0, 0, 0) of
                  (total', free', systemUsed, dataUsed) \<Rightarrow>
                    (let used = total' - free'
                     in \<lparr>TotalGB = total', UsedGB = used, FreeGB = free', PurgeableGB = 0,
                         Categories = used_categories systemUsed dataUsed used
                           @ [\<lparr>Name_c = ''Free'', Size = free', Icon = ''free''\<rparr>]\<rparr>))))"

text \<open>
  The cached breakdown with the time of its last update and the pending flag.
  \<open>updateBreakdown\<close> stores what it computed; \<open>GetStorageBreakdown\<close> returns the cached
  value, and says whether it started a refresh.
\<close>

record storage =
  cachedBreakdown :: StorageBreakdown
  lastBreakdownUpdate :: time
  breakdownPending :: bool

definition updateBreakdown :: "DiskInfo list \<Rightarrow> int \<times> int \<times> int \<Rightarrow> apfsContainerInfo option
    \<Rightarrow> time \<Rightarrow> storage \<Rightarrow> storage" where
  "updateBreakdown disks found container now st =
     st\<lparr>cachedBreakdown := breakdown_of disks found container,
        lastBreakdownUpdate := now,
        breakdownPending := False\<rparr>"

definition GetStorageBreakdown :: "time \<Rightarrow> time \<Rightarrow> storage \<Rightarrow> StorageBreakdown \<times> storage \<times> bool" where
  "GetStorageBreakdown now1 now2 st =
     (if Since now1 (lastBreakdownUpdate st) > 5 * Second
         \<and> Since now2 (lastBreakdownUpdate st) > 5 * Second \<and> \<not> breakdownPending st
      then (cachedBreakdown st, st\<lparr>breakdownPending := True\<rparr>, True)
      else (cachedBreakdown st, st, False))"

text \<open>The sum of the sizes of the categories of a breakdown.\<close>

definition categories_total :: "StorageBreakdown \<Rightarrow> real" where
  "categories_total b = sum_list (map Size (Categories b))"

text \<open>The sum of the sizes of the categories \<open>macOS\<close> and \<open>Data\<close> of a breakdown.\<close>

definition known_total :: "StorageBreakdown \<Rightarrow> real" where
  "known_total b =
     sum_list (map Size (filter (\<lambda>c. Name_c c = ''macOS'' \<or> Name_c c = ''Data'') (Categories b)))"



section \<open>server/auth.go: the session gate\<close>

definition sessionMaxAge :: duration where
  "sessionMaxAge = 24 * Hour"

definition maxLoginAttempts :: int where
  "maxLoginAttempts = 5"

definition lockoutDuration :: duration where
  "lockoutDuration = 15 * Minute"

record session =
  token :: string
  csrf :: string
  created :: time

record loginAttempt =
  count :: int
  lastFail :: time

text \<open>The two tables of the package: \<open>sessions\<close> by token and \<open>attempts\<close> by address.\<close>

record gate =
  sessions :: "string \<rightharpoonup> session"
  attempts :: "string \<rightharpoonup> loginAttempt"

definition createSession :: "string \<Rightarrow> string \<Rightarrow> time \<Rightarrow> gate \<Rightarrow> session \<times> gate" where
  "createSession tok ctok now g =
     (let s = \<lparr>token = tok, csrf = ctok, created = now\<rparr>
      in (s, g\<lparr>sessions := (sessions g)(tok \<mapsto> s)\<rparr>))"

definition getSession :: "string \<Rightarrow> time \<Rightarrow> gate \<Rightarrow> session option \<times> gate" where
  "getSession tok now g =
     (case sessions g tok of
        None \<Rightarrow> (None, g)
      | Some s \<Rightarrow>
          (if Since now (created s) > sessionMaxAge
           then (None, g\<lparr>sessions := (sessions g)(tok := None)\<rparr>)
           else (Some s, g)))"

text \<open>
  \<open>checkRateLimit\<close> gives \<open>(remaining, lockedUntil, allowed)\<close> and the table after it.
\<close>

definition checkRateLimit :: "string \<Rightarrow> time \<Rightarrow> gate \<Rightarrow> (int \<times> time \<times> bool) \<times> gate" where
  "checkRateLimit ip now g =
     (case attempts g ip of
        None \<Rightarrow> ((maxLoginAttempts, zeroTime, True), g)
      | Some a \<Rightarrow>
          (if count a \<ge> maxLoginAttempts \<and> Since now (lastFail a) > lockoutDuration
           then ((maxLoginAttempts, zeroTime, True), g\<lparr>attempts := (attempts g)(ip := None)\<rparr>)
           else if count a \<ge> maxLoginAttempts
           then ((0, lastFail a + lockoutDuration, False), g)
           else ((maxLoginAttempts - count a, zeroTime, True), g)))"

definition recordFailedAttempt :: "string \<Rightarrow> time \<Rightarrow> gate \<Rightarrow> int \<times> gate" where
  "recordFailedAttempt ip now g =
     (let a = (case attempts g ip of None \<Rightarrow> \<lparr>count = 0, lastFail = zeroTime\<rparr> | Some a \<Rightarrow> a);
          a' = a\<lparr>count := count a + 1, lastFail := now\<rparr>
      in (maxLoginAttempts - count a', g\<lparr>attempts := (attempts g)(ip := Some a')\<rparr>))"

definition clearAttempts :: "string \<Rightarrow> gate \<Rightarrow> gate" where
  "clearAttempts ip g = g\<lparr>attempts := (attempts g)(ip := None)\<rparr>"

text \<open>The failures counted for an address: none when the table has no entry for it.\<close>

definition failures :: "gate \<Rightarrow> string \<Rightarrow> int" where
  "failures g ip = (case attempts g ip of None \<Rightarrow> 0 | Some a \<Rightarrow> count a)"

text \<open>
  What the handlers read of a request: the method, the path, the value of the session
  cookie (\<open>None\<close> when the cookie is missing), the headers \<open>X-CSRF-Token\<close>,
  \<open>X-Forwarded-For\<close> and \<open>X-Real-IP\<close> (\<open>Header.Get\<close> gives the empty string for a
  missing header), the host part of \<open>RemoteAddr\<close>, and the body.
\<close>

record request =
  Method :: string
  Path :: string
  SessionCookie :: "string option"
  X_CSRF_Token :: string
  X_Forwarded_For :: string
  X_Real_IP :: string
  RemoteHost :: string
  Body :: string

definition TrimSpace :: "string \<Rightarrow> string" where
  "TrimSpace s = rev (dropWhile isSpace (rev (dropWhile isSpace s)))"

definition getRealIP :: "request \<Rightarrow> string" where
  "getRealIP r =
     (if X_Forwarded_For r \<noteq> [] then TrimSpace (takeWhile (\<lambda>c. c \<noteq> CHR '','') (X_Forwarded_For r))
      else if X_Real_IP r \<noteq> [] then X_Real_IP r
      else RemoteHost r)"

text \<open>
  The answers of \<open>handleLogin\<close>: 405, 429 with \<open>locked_until\<close> and \<open>remaining\<close>, 400,
  401 with its message and \<open>remaining\<close>, and 200 with the two cookies.
\<close>

datatype response =
  MethodNotAllowed
  | TooManyRequests int int
  | BadRequest
  | Unauthorized string int
  | LoggedIn string string

fun status :: "response \<Rightarrow> nat" where
  "status MethodNotAllowed = 405"
| "status (TooManyRequests locked_until remaining) = 429"
| "status BadRequest = 400"
| "status (Unauthorized msg remaining) = 401"
| "status (LoggedIn tok ctok) = 200"

text \<open>
  What \<open>handleLogin\<close> takes from outside: the decoding of the body, read through
  \<open>http.MaxBytesReader\<close> with its limit of 256 bytes, into the struct \<open>{Password string}\<close>
  (\<open>None\<close> for an error); \<open>bcrypt.CompareHashAndPassword\<close> against the stored hash
  (\<open>True\<close> for a match); the two random tokens of a new session; and the clock, read
  once by \<open>checkRateLimit\<close> and once more by \<open>recordFailedAttempt\<close> or \<open>createSession\<close>.
\<close>

record login_env =
  Decode :: "string \<Rightarrow> string option"
  CompareHashAndPassword :: "string \<Rightarrow> bool"
  newToken :: string
  newCSRF :: string
  Now :: time
  Later :: time

text \<open>
  \<open>handleLogin\<close> gives its answer, the tables after it, and the passwords it handed to
  \<open>bcrypt.CompareHashAndPassword\<close> (none or one).
\<close>

definition handleLogin :: "login_env \<Rightarrow> request \<Rightarrow> gate \<Rightarrow> response \<times> gate \<times> string list" where
  "handleLogin env r g =
     (if Method r \<noteq> ''POST'' then (MethodNotAllowed, g, [])
      else
        (let ip = getRealIP r in
         case checkRateLimit ip (Now env) g of
           ((remaining, lockedUntil, allowed), g1) \<Rightarrow>
             if \<not> allowed then (TooManyRequests (Unix lockedUntil) 0, g1, [])
             else
               (case Decode env (Body r) of
                  None \<Rightarrow> (BadRequest, g1, [])
                | Some password \<Rightarrow>
                    if length password = 0 \<or> length password > 72 then
                      (case recordFailedAttempt ip (Later env) g1 of
                         (rem, g2) \<Rightarrow> (Unauthorized ''Invalid password'' rem, g2, []))
                    else if \<not> CompareHashAndPassword env password then
                      (case recordFailedAttempt ip (Later env) g1 of
                         (rem, g2) \<Rightarrow> (Unauthorized ''Invalid password'' rem, g2, [password]))
                    else
                      (case createSession (newToken env) (newCSRF env) (Later env)
                              (clearAttempts ip g1) of
                         (sess, g2) \<Rightarrow> (LoggedIn (token sess) (csrf sess), g2, [password])))))"

text \<open>
  \<open>AuthMiddleware\<close> either calls the next handler or answers itself, with a status and
  a message.
\<close>

datatype verdict = Next | Answer nat string

definition isStaticAsset :: "string \<Rightarrow> bool" where
  "isStaticAsset path =
     list_ex (\<lambda>ext. length path > length ext \<and> drop (length path - length ext) path = ext)
       [''.css'', ''.js'', ''.woff'', ''.woff2'', ''.ttf'', ''.ico'', ''.png'', ''.jpg'', ''.svg'']"

definition getSessionFromRequest :: "request \<Rightarrow> time \<Rightarrow> gate \<Rightarrow> session option \<times> gate" where
  "getSessionFromRequest r now g =
     (case SessionCookie r of None \<Rightarrow> (None, g) | Some v \<Rightarrow> getSession v now g)"

definition AuthMiddleware :: "time \<Rightarrow> request \<Rightarrow> gate \<Rightarrow> verdict \<times> gate" where
  "AuthMiddleware now r g =
     (if isStaticAsset (Path r) then (Next, g)
      else
        (case getSessionFromRequest r now g of
           (None, g') \<Rightarrow>
             (if Path r = ''/'' \<or> Path r = ''/index.html'' then (Next, g')
              else (Answer 401 ''Authentication required'', g'))
         | (Some s, g') \<Rightarrow>
             (if Method r \<noteq> ''GET'' \<and> Method r \<noteq> ''HEAD'' \<and> Method r \<noteq> ''OPTIONS'' then
                (if X_CSRF_Token r = [] \<or> X_CSRF_Token r \<noteq> csrf s
                 then (Answer 403 ''Invalid or missing CSRF token'', g')
                 else (Next, g'))
              else (Next, g'))))"

section \<open>Properties of the cache cell\<close>

lemma Get_serves_fresh:
  "fresh c now1 \<Longrightarrow> Get c now1 now2 fetch w = (Returned (value_c c), c, w)"
  by (simp add: Get_def Get_enter_def)

lemma Get_serves_busy:
  "fetching c \<Longrightarrow> Get c now1 now2 fetch w = (Returned (value_c c), c, w)"
  by (simp add: Get_def Get_enter_def)

lemma Get_fetches:
  "\<not> fresh c now1 \<Longrightarrow> \<not> fetching c \<Longrightarrow> fetch w = (Returned v, w')
     \<Longrightarrow> Get c now1 now2 fetch w
         = (Returned v, c\<lparr>value_c := v, last_c := now2, fetching := False\<rparr>, w')"
  by (simp add: Get_def Get_enter_def Get_store_def)

lemma fresh_example:
  "fresh \<lparr>value_c = (7::int), last_c = 100 * Second, ttl = 3 * Second, fetching = False\<rparr>
     (101 * Second)"
  by (simp add: fresh_def IsZero_def Since_def zeroTime_def Second_def)

lemma stale_example:
  "\<not> fresh \<lparr>value_c = (7::int), last_c = 100 * Second, ttl = 3 * Second, fetching = b\<rparr>
       (104 * Second)"
  by (simp add: fresh_def IsZero_def Since_def zeroTime_def Second_def)

text \<open>
  C1. A call of \<open>Get\<close> on a cell whose value was fetched less than its TTL ago returns the
  stored value, and \<open>fetch\<close> is not called: the cell and the world of \<open>fetch\<close> are as
  before. On a stale cell whose flag is set, the same. On a stale cell whose flag is not
  set, the first critical section sets the flag; \<open>fetch\<close> is then run once, and when it
  returns \<open>v\<close>, \<open>Get\<close> returns \<open>v\<close> and leaves the cell with the value \<open>v\<close>, the time of
  the store and the flag cleared, and the world as the one run of \<open>fetch\<close> left it.
\<close>

theorem Get_contract:
  "(fresh c now1 \<longrightarrow> Get c now1 now2 fetch w = (Returned (value_c c), c, w))
   \<and> (\<not> fresh c now1 \<and> fetching c \<longrightarrow> Get c now1 now2 fetch w = (Returned (value_c c), c, w))
   \<and> (\<not> fresh c now1 \<and> \<not> fetching c \<longrightarrow>
        Get_enter c now1 = Fetch (c\<lparr>fetching := True\<rparr>)
        \<and> (\<forall>v w'. fetch w = (Returned v, w') \<longrightarrow>
              Get c now1 now2 fetch w
                = (Returned v, c\<lparr>value_c := v, last_c := now2, fetching := False\<rparr>, w')))"
  by (simp add: Get_serves_fresh Get_serves_busy Get_fetches Get_enter_def)

theorem Get_contract_witness:
  "Get \<lparr>value_c = (7::int), last_c = 100 * Second, ttl = 3 * Second, fetching = False\<rparr>
       (101 * Second) (102 * Second) (\<lambda>n::nat. (Returned 8, Suc n)) 0
     = (Returned 7, \<lparr>value_c = 7, last_c = 100 * Second, ttl = 3 * Second, fetching = False\<rparr>, 0)
   \<and> Get \<lparr>value_c = (7::int), last_c = 100 * Second, ttl = 3 * Second, fetching = True\<rparr>
       (104 * Second) (105 * Second) (\<lambda>n::nat. (Returned 8, Suc n)) 0
     = (Returned 7, \<lparr>value_c = 7, last_c = 100 * Second, ttl = 3 * Second, fetching = True\<rparr>, 0)
   \<and> Get \<lparr>value_c = (7::int), last_c = 100 * Second, ttl = 3 * Second, fetching = False\<rparr>
       (104 * Second) (105 * Second) (\<lambda>n::nat. (Returned 8, Suc n)) 0
     = (Returned 8, \<lparr>value_c = 8, last_c = 105 * Second, ttl = 3 * Second, fetching = False\<rparr>, Suc 0)"
  using Get_contract [of "\<lparr>value_c = (7::int), last_c = 100 * Second, ttl = 3 * Second, fetching = False\<rparr>"
          "101 * Second" "102 * Second" "\<lambda>n::nat. (Returned 8, Suc n)" 0]
        Get_contract [of "\<lparr>value_c = (7::int), last_c = 100 * Second, ttl = 3 * Second, fetching = True\<rparr>"
          "104 * Second" "105 * Second" "\<lambda>n::nat. (Returned 8, Suc n)" 0]
        Get_contract [of "\<lparr>value_c = (7::int), last_c = 100 * Second, ttl = 3 * Second, fetching = False\<rparr>"
          "104 * Second" "105 * Second" "\<lambda>n::nat. (Returned 8, Suc n)" 0]
        fresh_example stale_example [of True] stale_example [of False]
  by simp

text \<open>
  C2. The flag is not cleared when \<open>fetch\<close> panics. On a new cell with a TTL of three
  seconds, a \<open>Get\<close> whose \<open>fetch\<close> panics ends in that panic and leaves the flag set; from
  then on every \<open>Get\<close> on the cell, at any time and with any \<open>fetch\<close>, returns the zero
  value without calling \<open>fetch\<close>, and leaves the flag set.
\<close>

theorem Get_flag_stuck_after_panic:
  "Get (NewCachedValue (0::int) (3 * Second)) t1 t2 (\<lambda>n::nat. (Panicked, Suc n)) 0
     = (Panicked, (NewCachedValue 0 (3 * Second))\<lparr>fetching := True\<rparr>, Suc 0)
   \<and> Get ((NewCachedValue (0::int) (3 * Second))\<lparr>fetching := True\<rparr>) t3 t4 fetch (w::nat)
     = (Returned 0, (NewCachedValue 0 (3 * Second))\<lparr>fetching := True\<rparr>, w)"
  by (simp add: Get_def Get_enter_def fresh_def IsZero_def NewCachedValue_def)

section \<open>Properties of the snapshot aggregator\<close>

lemma category_assign:
  "category p (assign q v m) = (if p = q then v else category p m)"
  by (cases p; cases q; simp)

lemma category_stamp:
  "category p (m\<lparr>Timestamp := t, ClientCount := n\<rparr>) = category p m"
  by (cases p; simp)

lemma category_zero: "category p zeroAllMetrics = 0"
  by (cases p; simp add: zeroAllMetrics_def)

lemma tasks_distinct: "distinct tasks"
  by (simp add: tasks_def)

lemma tasks_length: "length tasks = 14"
  by (simp add: tasks_def)

lemma tasks_all: "p \<in> set tasks"
  by (cases p; simp add: tasks_def)

lemma schedule_length:
  assumes "distinct sched" and "set sched = set tasks"
  shows "length sched = 14"
proof -
  have "length sched = card (set sched)"
    using assms(1) by (simp add: distinct_card)
  also have "\<dots> = card (set tasks)"
    using assms(2) by simp
  also have "\<dots> = length tasks"
    using tasks_distinct by (simp add: distinct_card)
  finally show ?thesis by (simp add: tasks_length)
qed

lemma wg_fold:
  "wg (fold (\<lambda>p. safeGo (closure p (run p))) sched s) = wg s - int (length sched)"
  by (induction sched arbitrary: s) (auto simp: safeGo_def closure_def split: outcome.splits)

lemma category_fold:
  "distinct sched \<Longrightarrow>
   category p (metrics (fold (\<lambda>p. safeGo (closure p (run p))) sched s))
     = (if p \<in> set sched
        then (case run p of Returned v \<Rightarrow> v | Panicked \<Rightarrow> category p (metrics s))
        else category p (metrics s))"
proof (induction sched arbitrary: s)
  case Nil
  then show ?case by simp
next
  case (Cons q qs)
  then show ?case
    by (cases "run q") (auto simp: safeGo_def closure_def category_assign split: outcome.splits)
qed

lemma panics_fold:
  "panics_logged (fold (\<lambda>p. safeGo (closure p (run p))) sched s)
     = panics_logged s + length (filter (\<lambda>p. run p = Panicked) sched)"
  by (induction sched arbitrary: s) (auto simp: safeGo_def closure_def split: outcome.splits)

text \<open>
  C3. Let the fourteen goroutines of a \<open>CollectAll\<close> finish in any order, each once, and
  let any of the providers panic. Then \<open>CollectAll\<close> returns a snapshot; it carries the
  capture time and the given client count; the category of a provider that panicked is
  at its zero value, and every other category holds what its own provider returned; each
  panic is recovered and logged inside the aggregator. As long as fewer than fourteen
  goroutines have finished, the counter of the \<open>WaitGroup\<close> is above zero and
  \<open>CollectAll\<close> does not return.
\<close>

theorem CollectAll_isolates_panics:
  assumes "distinct sched" and "set sched = set tasks"
  shows "\<exists>m. CollectAll run sched now_ms clientCount = Some m
           \<and> Timestamp m = now_ms \<and> ClientCount m = clientCount
           \<and> (\<forall>p. category p m = (case run p of Returned v \<Rightarrow> v | Panicked \<Rightarrow> 0))
           \<and> (\<forall>k. k < 14 \<longrightarrow> wg (run_tasks run (take k sched)) = 14 - int k
                               \<and> CollectAll run (take k sched) now_ms clientCount = None)
           \<and> panics_logged (run_tasks run sched) = length (filter (\<lambda>p. run p = Panicked) sched)"
proof -
  have len: "length sched = 14"
    using assms by (rule schedule_length)
  have finished: "wg (run_tasks run sched) = 0"
    by (simp add: run_tasks_def wg_fold len)
  have cat: "category p (metrics (run_tasks run sched))
               = (case run p of Returned v \<Rightarrow> v | Panicked \<Rightarrow> 0)" for p
    using assms tasks_all [of p]
    by (simp add: run_tasks_def category_fold category_zero split: outcome.splits)
  have early: "wg (run_tasks run (take k sched)) = 14 - int k" if "k < 14" for k
    using that len by (simp add: run_tasks_def wg_fold)
  have blocked: "CollectAll run (take k sched) now_ms clientCount = None" if "k < 14" for k
    using early [OF that] that by (simp add: CollectAll_def Let_def)
  show ?thesis
    using finished cat early blocked
    by (simp add: CollectAll_def Let_def category_stamp run_tasks_def panics_fold)
qed

theorem CollectAll_isolates_panics_witness:
  "distinct (rev tasks) \<and> set (rev tasks) = set tasks
   \<and> (\<exists>m. CollectAll (\<lambda>p. if p = Task_Battery then Panicked else Returned (1::int))
              (rev tasks) 1700000000000 3 = Some m
          \<and> Timestamp m = 1700000000000 \<and> ClientCount m = 3
          \<and> Battery m = 0 \<and> CPU m = 1 \<and> Health m = 1)"
proof -
  let ?run = "\<lambda>p. if p = Task_Battery then Panicked else Returned (1::int)"
  have d: "distinct (rev tasks)"
    using tasks_distinct by simp
  have s: "set (rev tasks) = set tasks"
    by simp
  from CollectAll_isolates_panics [OF d s, of ?run 1700000000000 3]
  obtain m where m: "CollectAll ?run (rev tasks) 1700000000000 3 = Some m"
      "Timestamp m = 1700000000000" "ClientCount m = 3"
      "\<forall>p. category p m = (case ?run p of Returned v \<Rightarrow> v | Panicked \<Rightarrow> 0)"
    by blast
  from m(4) have "category Task_Battery m = 0" "category Task_CPU m = 1"
      "category Task_Health m = 1"
    by simp_all
  then have "Battery m = 0" "CPU m = 1" "Health m = 1"
    by simp_all
  with d s m(1,2,3) show ?thesis
    by blast
qed

section \<open>Properties of the broadcast hub\<close>

text \<open>The hub that a broadcast to the clients \<open>cs\<close> leaves.\<close>

lemma broadcast_result:
  "distinct cs \<Longrightarrow> \<forall>c \<in> set cs. \<not> closed (send h c) \<Longrightarrow>
   broadcast pm cs h =
     Returned (h\<lparr>clients := filter (\<lambda>c. c \<notin> set cs \<or> has_room h c) (clients h),
                 send := (\<lambda>c. if c \<in> set cs
                              then (if has_room h c then (send h c)\<lparr>buf := buf (send h c) @ [pm]\<rparr>
                                    else (send h c)\<lparr>closed := True\<rparr>)
                              else send h c)\<rparr>)"
proof (induction cs arbitrary: h)
  case Nil
  then show ?case by simp
next
  case (Cons c cs)
  have open_c: "\<not> closed (send h c)"
    using Cons.prems by simp
  have fresh_c: "c \<notin> set cs" and dist: "distinct cs"
    using Cons.prems by simp_all
  show ?case
  proof (cases "has_room h c")
    case True
    let ?h1 = "h\<lparr>send := (send h)(c := (send h c)\<lparr>buf := buf (send h c) @ [pm]\<rparr>)\<rparr>"
    have open1: "\<forall>x \<in> set cs. \<not> closed (send ?h1 x)"
      using Cons.prems by auto
    have room1: "has_room ?h1 x = has_room h x" if "x \<noteq> c" for x
      using that by (simp add: has_room_def)
    have "broadcast pm (c # cs) h = broadcast pm cs ?h1"
      using True open_c by (simp add: try_send_def has_room_def)
    also have "\<dots> = Returned (?h1\<lparr>clients := filter (\<lambda>x. x \<notin> set cs \<or> has_room ?h1 x) (clients ?h1),
                 send := (\<lambda>x. if x \<in> set cs
                              then (if has_room ?h1 x then (send ?h1 x)\<lparr>buf := buf (send ?h1 x) @ [pm]\<rparr>
                                    else (send ?h1 x)\<lparr>closed := True\<rparr>)
                              else send ?h1 x)\<rparr>)"
      by (rule Cons.IH [OF dist open1])
    also have "\<dots> = Returned (h\<lparr>clients := filter (\<lambda>x. x \<notin> set (c # cs) \<or> has_room h x) (clients h),
                 send := (\<lambda>x. if x \<in> set (c # cs)
                              then (if has_room h x then (send h x)\<lparr>buf := buf (send h x) @ [pm]\<rparr>
                                    else (send h x)\<lparr>closed := True\<rparr>)
                              else send h x)\<rparr>)"
    proof -
      have f: "filter (\<lambda>x. x \<notin> set cs \<or> has_room ?h1 x) (clients ?h1)
                 = filter (\<lambda>x. x \<notin> set (c # cs) \<or> has_room h x) (clients h)"
        using True fresh_c by (auto simp: has_room_def intro!: filter_cong)
      have g: "(\<lambda>x. if x \<in> set cs
                              then (if has_room ?h1 x then (send ?h1 x)\<lparr>buf := buf (send ?h1 x) @ [pm]\<rparr>
                                    else (send ?h1 x)\<lparr>closed := True\<rparr>)
                              else send ?h1 x)
               = (\<lambda>x. if x \<in> set (c # cs)
                              then (if has_room h x then (send h x)\<lparr>buf := buf (send h x) @ [pm]\<rparr>
                                    else (send h x)\<lparr>closed := True\<rparr>)
                              else send h x)"
        using True fresh_c by (auto simp: fun_eq_iff has_room_def)
      show ?thesis
        by (simp only: f g) simp
    qed
    finally show ?thesis .
  next
    case False
    let ?h1 = "h\<lparr>send := (send h)(c := (send h c)\<lparr>closed := True\<rparr>),
                 clients := removeAll c (clients h)\<rparr>"
    have open1: "\<forall>x \<in> set cs. \<not> closed (send ?h1 x)"
      using Cons.prems by auto
    have "broadcast pm (c # cs) h = broadcast pm cs ?h1"
      using False open_c by (simp add: try_send_def close_chan_def has_room_def)
    also have "\<dots> = Returned (?h1\<lparr>clients := filter (\<lambda>x. x \<notin> set cs \<or> has_room ?h1 x) (clients ?h1),
                 send := (\<lambda>x. if x \<in> set cs
                              then (if has_room ?h1 x then (send ?h1 x)\<lparr>buf := buf (send ?h1 x) @ [pm]\<rparr>
                                    else (send ?h1 x)\<lparr>closed := True\<rparr>)
                              else send ?h1 x)\<rparr>)"
      by (rule Cons.IH [OF dist open1])
    also have "\<dots> = Returned (h\<lparr>clients := filter (\<lambda>x. x \<notin> set (c # cs) \<or> has_room h x) (clients h),
                 send := (\<lambda>x. if x \<in> set (c # cs)
                              then (if has_room h x then (send h x)\<lparr>buf := buf (send h x) @ [pm]\<rparr>
                                    else (send h x)\<lparr>closed := True\<rparr>)
                              else send h x)\<rparr>)"
    proof -
      have f: "filter (\<lambda>x. x \<notin> set cs \<or> has_room ?h1 x) (clients ?h1)
                 = filter (\<lambda>x. x \<notin> set (c # cs) \<or> has_room h x) (clients h)"
        using False fresh_c
        by (auto simp: has_room_def removeAll_filter_not_eq intro!: filter_cong)
      have g: "(\<lambda>x. if x \<in> set cs
                              then (if has_room ?h1 x then (send ?h1 x)\<lparr>buf := buf (send ?h1 x) @ [pm]\<rparr>
                                    else (send ?h1 x)\<lparr>closed := True\<rparr>)
                              else send ?h1 x)
               = (\<lambda>x. if x \<in> set (c # cs)
                              then (if has_room h x then (send h x)\<lparr>buf := buf (send h x) @ [pm]\<rparr>
                                    else (send h x)\<lparr>closed := True\<rparr>)
                              else send h x)"
        using False fresh_c by (auto simp: fun_eq_iff has_room_def)
      show ?thesis
        by (simp only: f g) simp
    qed
    finally show ?thesis .
  qed
qed


lemma tick_empty:
  "clients h = [] \<Longrightarrow> tick collect marshal prepare h = (Returned h, [])"
  by (simp add: tick_def)

lemma tick_marshal_error:
  "clients h \<noteq> [] \<Longrightarrow> marshal (collect (length (clients h))) = None \<Longrightarrow>
   tick collect marshal prepare h
     = (Returned h, [Call_CollectAll (length (clients h)), Call_Marshal])"
  by (simp add: tick_def)

lemma tick_prepare_error:
  "clients h \<noteq> [] \<Longrightarrow> marshal (collect (length (clients h))) = Some data \<Longrightarrow>
   prepare data = None \<Longrightarrow>
   tick collect marshal prepare h
     = (Returned h, [Call_CollectAll (length (clients h)), Call_Marshal, Call_NewPreparedMessage])"
  by (simp add: tick_def)

lemma tick_sends:
  assumes "registry_ok h" and "clients h \<noteq> []"
    and "marshal (collect (length (clients h))) = Some data" and "prepare data = Some pm"
  shows "\<exists>h'. tick collect marshal prepare h
             = (Returned h',
                [Call_CollectAll (length (clients h)), Call_Marshal, Call_NewPreparedMessage])
           \<and> clients h' = filter (has_room h) (clients h)
           \<and> (\<forall>c. c \<in> set (clients h) \<and> has_room h c \<longrightarrow>
                  send h' c = (send h c)\<lparr>buf := buf (send h c) @ [pm]\<rparr>)
           \<and> (\<forall>c. c \<in> set (clients h) \<and> \<not> has_room h c \<longrightarrow>
                  send h' c = (send h c)\<lparr>closed := True\<rparr> \<and> c \<notin> set (clients h'))
           \<and> (\<forall>c. c \<notin> set (clients h) \<longrightarrow> send h' c = send h c)
           \<and> ticker h' = ticker h
           \<and> registry_ok h'"
proof -
  let ?h' = "h\<lparr>clients := filter (\<lambda>c. c \<notin> set (clients h) \<or> has_room h c) (clients h),
               send := (\<lambda>c. if c \<in> set (clients h)
                            then (if has_room h c then (send h c)\<lparr>buf := buf (send h c) @ [pm]\<rparr>
                                  else (send h c)\<lparr>closed := True\<rparr>)
                            else send h c)\<rparr>"
  have d: "distinct (clients h)" and o: "\<forall>c \<in> set (clients h). \<not> closed (send h c)"
    using assms(1) by (simp_all add: registry_ok_def list_all_iff)
  have b: "broadcast pm (clients h) h = Returned ?h'"
    by (rule broadcast_result [OF d o])
  have t: "tick collect marshal prepare h
             = (Returned ?h',
                [Call_CollectAll (length (clients h)), Call_Marshal, Call_NewPreparedMessage])"
    using assms(2,3,4) b by (simp add: tick_def)
  have f: "clients ?h' = filter (has_room h) (clients h)"
    by (auto intro!: filter_cong)
  have ok: "registry_ok ?h'"
    using d o by (auto simp: registry_ok_def list_all_iff)
  show ?thesis
    using t f ok by (intro exI [of _ ?h']) simp
qed


lemma registry_ok_register:
  "registry_ok h \<Longrightarrow> \<not> closed (send h c) \<Longrightarrow> registry_ok (register c h)"
  by (simp add: registry_ok_def register_def)

lemma registry_ok_unregister:
  "registry_ok h \<Longrightarrow> \<exists>h'. unregister c h = Returned h' \<and> registry_ok h'"
  by (auto simp: registry_ok_def unregister_def close_chan_def list_all_iff distinct_removeAll)

text \<open>
  C4, as the code has it. A tick with an empty registry calls nothing: no collection is
  made. A tick with a non-empty registry collects once and serializes once; when
  \<open>json.Marshal\<close> or \<open>websocket.NewPreparedMessage\<close> fails, the tick ends there and no
  viewer is enqueued or removed. When both succeed, and the registered viewers are
  distinct with open queues (which \<open>register\<close>, \<open>unregister\<close> and the tick itself
  maintain), the tick does not panic; every registered viewer whose queue has room gets the
  one prepared message appended to its queue and stays registered; every registered viewer
  whose queue is full has its queue closed and is removed from the registry; the queue of a
  viewer that is not registered, and the ticker, are untouched.
\<close>

theorem tick_contract:
  "(clients h = [] \<longrightarrow> tick collect marshal prepare h = (Returned h, []))
   \<and> (clients h \<noteq> [] \<and> marshal (collect (length (clients h))) = None \<longrightarrow>
        tick collect marshal prepare h
          = (Returned h, [Call_CollectAll (length (clients h)), Call_Marshal]))
   \<and> (clients h \<noteq> [] \<and> marshal (collect (length (clients h))) = Some data
        \<and> prepare data = None \<longrightarrow>
        tick collect marshal prepare h
          = (Returned h,
             [Call_CollectAll (length (clients h)), Call_Marshal, Call_NewPreparedMessage]))
   \<and> (registry_ok h \<and> clients h \<noteq> [] \<and> marshal (collect (length (clients h))) = Some data
        \<and> prepare data = Some pm \<longrightarrow>
        (\<exists>h'. tick collect marshal prepare h
                 = (Returned h',
                    [Call_CollectAll (length (clients h)), Call_Marshal, Call_NewPreparedMessage])
           \<and> clients h' = filter (has_room h) (clients h)
           \<and> (\<forall>c. c \<in> set (clients h) \<and> has_room h c \<longrightarrow>
                  send h' c = (send h c)\<lparr>buf := buf (send h c) @ [pm]\<rparr>)
           \<and> (\<forall>c. c \<in> set (clients h) \<and> \<not> has_room h c \<longrightarrow>
                  send h' c = (send h c)\<lparr>closed := True\<rparr> \<and> c \<notin> set (clients h'))
           \<and> (\<forall>c. c \<notin> set (clients h) \<longrightarrow> send h' c = send h c)
           \<and> ticker h' = ticker h
           \<and> registry_ok h'))"
  using tick_empty [of h collect marshal prepare]
    tick_marshal_error [of h marshal collect prepare]
    tick_prepare_error [of h marshal collect data prepare]
    tick_sends [of h marshal collect data prepare pm]
  by blast

theorem tick_contract_witness:
  "registry_ok
     \<lparr>clients = [1, 2, 3],
      send = (\<lambda>c. if c = 2 then \<lparr>buf = replicate 16 (0::nat), cap = 16, closed = False\<rparr>
                  else if c = 3 then \<lparr>buf = [7], cap = 16, closed = False\<rparr>
                  else make_chan 16),
      ticker = Second\<rparr>
   \<and> (\<exists>h'. tick (\<lambda>n. n) (\<lambda>m. Some m) (\<lambda>b. Some b)
              \<lparr>clients = [1, 2, 3],
               send = (\<lambda>c. if c = 2 then \<lparr>buf = replicate 16 (0::nat), cap = 16, closed = False\<rparr>
                           else if c = 3 then \<lparr>buf = [7], cap = 16, closed = False\<rparr>
                           else make_chan 16),
               ticker = Second\<rparr>
            = (Returned h', [Call_CollectAll 3, Call_Marshal, Call_NewPreparedMessage])
          \<and> clients h' = [1, 3]
          \<and> send h' 1 = \<lparr>buf = [3], cap = 16, closed = False\<rparr>
          \<and> send h' 2 = \<lparr>buf = replicate 16 0, cap = 16, closed = True\<rparr>
          \<and> send h' 3 = \<lparr>buf = [7, 3], cap = 16, closed = False\<rparr>)"
proof -
  let ?h = "\<lparr>clients = [1, 2, 3],
      send = (\<lambda>c. if c = 2 then \<lparr>buf = replicate 16 (0::nat), cap = 16, closed = False\<rparr>
                  else if c = 3 then \<lparr>buf = [7], cap = 16, closed = False\<rparr>
                  else make_chan 16),
      ticker = Second\<rparr>"
  have ok: "registry_ok ?h"
    by (simp add: registry_ok_def make_chan_def)
  have r: "has_room ?h 1" "\<not> has_room ?h 2" "has_room ?h 3"
    by (simp_all add: has_room_def make_chan_def)
  from tick_contract [of ?h "\<lambda>n. n" "\<lambda>m. Some m" "\<lambda>b. Some b" 3 3] ok
  obtain h' where h': "tick (\<lambda>n. n) (\<lambda>m. Some m) (\<lambda>b. Some b) ?h
        = (Returned h', [Call_CollectAll 3, Call_Marshal, Call_NewPreparedMessage])"
      "clients h' = filter (has_room ?h) (clients ?h)"
      "\<forall>c. c \<in> set (clients ?h) \<and> has_room ?h c \<longrightarrow>
            send h' c = (send ?h c)\<lparr>buf := buf (send ?h c) @ [3]\<rparr>"
      "\<forall>c. c \<in> set (clients ?h) \<and> \<not> has_room ?h c \<longrightarrow>
            send h' c = (send ?h c)\<lparr>closed := True\<rparr> \<and> c \<notin> set (clients h')"
    by auto
  have "clients h' = [1, 3]"
    using h'(2) r by simp
  moreover have "send h' 1 = \<lparr>buf = [3], cap = 16, closed = False\<rparr>"
    using h'(3) r(1) by (simp add: make_chan_def)
  moreover have "send h' 2 = \<lparr>buf = replicate 16 0, cap = 16, closed = True\<rparr>"
    using h'(4) r(2) by simp
  moreover have "send h' 3 = \<lparr>buf = [7, 3], cap = 16, closed = False\<rparr>"
    using h'(3) r(3) by simp
  ultimately show ?thesis
    using ok h'(1) by blast
qed

text \<open>
  C4 as stated fails when the snapshot cannot be serialized: the registry holds one viewer
  whose queue is empty, \<open>json.Marshal\<close> returns an error, and the tick leaves the queue of
  that viewer empty.
\<close>

theorem tick_marshal_error_counterexample:
  "clients \<lparr>clients = [1], send = (\<lambda>c. make_chan 16), ticker = Second\<rparr> \<noteq> []
   \<and> has_room \<lparr>clients = [1], send = (\<lambda>c. make_chan 16 :: nat chan), ticker = Second\<rparr> 1
   \<and> tick (\<lambda>n. n) (\<lambda>m. None :: nat option) (\<lambda>b. Some b)
        \<lparr>clients = [1], send = (\<lambda>c. make_chan 16), ticker = Second\<rparr>
      = (Returned \<lparr>clients = [1], send = (\<lambda>c. make_chan 16), ticker = Second\<rparr>,
         [Call_CollectAll 1, Call_Marshal])
   \<and> buf (send \<lparr>clients = [1], send = (\<lambda>c. make_chan 16 :: nat chan), ticker = Second\<rparr> 1) = []"
  by (simp add: tick_def has_room_def make_chan_def)

lemma NewHub_example_ticker:
  "ticker (NewHub (\<lambda>c. make_chan 16)) = 1 * Second"
  by (simp add: NewHub_def)

text \<open>
  C9. An inbound message that \<open>json.Unmarshal\<close> decodes to the action \<open>set_rate\<close> with a
  rate from 250 to 10000 sets the period of the ticker to that many milliseconds and
  changes nothing else. With a rate outside that range, with any other action, or when the
  message does not decode, the hub is left as it was: no queue of any viewer receives
  anything.
\<close>

theorem incoming_set_rate:
  "(unmarshal msg = Some c \<and> Action c = ''set_rate'' \<and> 250 \<le> Rate c \<and> Rate c \<le> 10000 \<longrightarrow>
      incoming unmarshal msg h = h\<lparr>ticker := Rate c * Millisecond\<rparr>)
   \<and> (unmarshal msg = Some c \<and> Action c = ''set_rate'' \<and> (Rate c < 250 \<or> 10000 < Rate c) \<longrightarrow>
      incoming unmarshal msg h = h)
   \<and> (unmarshal msg = Some c \<and> Action c \<noteq> ''set_rate'' \<longrightarrow> incoming unmarshal msg h = h)
   \<and> (unmarshal msg = None \<longrightarrow> incoming unmarshal msg h = h)"
  by (auto simp: incoming_def)

theorem incoming_set_rate_witness:
  "ticker (incoming (\<lambda>m. m) (Some \<lparr>Action = ''set_rate'', Rate = 5000\<rparr>)
             (NewHub (\<lambda>c. make_chan 16 :: nat chan))) = 5 * Second
   \<and> ticker (incoming (\<lambda>m. m) (Some \<lparr>Action = ''set_rate'', Rate = 100\<rparr>)
             (NewHub (\<lambda>c. make_chan 16 :: nat chan))) = 1 * Second
   \<and> ticker (incoming (\<lambda>m. m) (Some \<lparr>Action = ''set_rate'', Rate = 99999\<rparr>)
             (NewHub (\<lambda>c. make_chan 16 :: nat chan))) = 1 * Second
   \<and> incoming (\<lambda>m. m) (Some \<lparr>Action = ''reboot'', Rate = 5000\<rparr>)
             (NewHub (\<lambda>c. make_chan 16 :: nat chan)) = NewHub (\<lambda>c. make_chan 16)
   \<and> incoming (\<lambda>m. m) None (NewHub (\<lambda>c. make_chan 16 :: nat chan)) = NewHub (\<lambda>c. make_chan 16)"
  using incoming_set_rate [of "\<lambda>m. m" "Some \<lparr>Action = ''set_rate'', Rate = 5000\<rparr>"
          "\<lparr>Action = ''set_rate'', Rate = 5000\<rparr>" "NewHub (\<lambda>c. make_chan 16 :: nat chan)"]
        incoming_set_rate [of "\<lambda>m. m" "Some \<lparr>Action = ''set_rate'', Rate = 100\<rparr>"
          "\<lparr>Action = ''set_rate'', Rate = 100\<rparr>" "NewHub (\<lambda>c. make_chan 16 :: nat chan)"]
        incoming_set_rate [of "\<lambda>m. m" "Some \<lparr>Action = ''set_rate'', Rate = 99999\<rparr>"
          "\<lparr>Action = ''set_rate'', Rate = 99999\<rparr>" "NewHub (\<lambda>c. make_chan 16 :: nat chan)"]
        incoming_set_rate [of "\<lambda>m. m" "Some \<lparr>Action = ''reboot'', Rate = 5000\<rparr>"
          "\<lparr>Action = ''reboot'', Rate = 5000\<rparr>" "NewHub (\<lambda>c. make_chan 16 :: nat chan)"]
        incoming_set_rate [of "\<lambda>m. m" None "\<lparr>Action = [], Rate = 0\<rparr>" "NewHub (\<lambda>c. make_chan 16 :: nat chan)"]
        NewHub_example_ticker [where 'a = nat]
  by (simp add: Second_def Millisecond_def)

section \<open>Properties of the session gate\<close>











text \<open>
  Five failed logins from an address without an entry leave it with a count of five.
\<close>

lemma five_failures_lock:
  "attempts
     (((\<lambda>g. fst (snd (handleLogin
          \<lparr>Decode = (\<lambda>b. Some b), CompareHashAndPassword = (\<lambda>p. p = ''secret''),
           newToken = ''t1'', newCSRF = ''c1'', Now = 1000 * Second, Later = 1000 * Second\<rparr>
          \<lparr>Method = ''POST'', Path = ''/api/login'', SessionCookie = None, X_CSRF_Token = [],
           X_Forwarded_For = [], X_Real_IP = [], RemoteHost = ''10.0.0.9'', Body = ''guess''\<rparr>
          g))) ^^ 5)
      \<lparr>sessions = Map.empty, attempts = Map.empty\<rparr>)
     ''10.0.0.9''
   = Some \<lparr>count = 5, lastFail = 1000 * Second\<rparr>"
  by (simp add: eval_nat_numeral handleLogin_def checkRateLimit_def recordFailedAttempt_def
      getRealIP_def maxLoginAttempts_def Let_def)



lemma recordFailedAttempt_counts:
  "recordFailedAttempt ip now g = (rem, g') \<Longrightarrow>
   failures g' ip = failures g ip + 1 \<and> rem = maxLoginAttempts - failures g' ip
   \<and> sessions g' = sessions g
   \<and> (\<exists>a. attempts g' ip = Some a \<and> lastFail a = now)"
  by (auto simp: recordFailedAttempt_def failures_def Let_def split: option.splits)

lemma checkRateLimit_sessions:
  "checkRateLimit ip now g = (x, g1) \<Longrightarrow> sessions g1 = sessions g"
  by (auto simp: checkRateLimit_def split: option.splits if_splits)

text \<open>
  C10. Let \<open>handleLogin\<close> reach the decoding of the body: the method is POST and
  \<open>checkRateLimit\<close> allows the attempt. When the decoded password is empty or longer
  than 72 bytes, the answer is 401 with the message \<open>Invalid password\<close>;
  \<open>bcrypt.CompareHashAndPassword\<close> is not called, whatever it would say of that
  password; the failure counter of the address goes up by one, and the remaining attempts
  are counted from it; no session is made.
\<close>

theorem password_length_gate:
  assumes "Method r = ''POST''"
    and "checkRateLimit (getRealIP r) (Now env) g = ((remaining, lockedUntil, True), g1)"
    and "Decode env (Body r) = Some p"
    and "length p = 0 \<or> length p > 72"
  shows "\<exists>rem g2. handleLogin env r g = (Unauthorized ''Invalid password'' rem, g2, [])
           \<and> status (fst (handleLogin env r g)) = 401
           \<and> failures g2 (getRealIP r) = failures g1 (getRealIP r) + 1
           \<and> rem = maxLoginAttempts - failures g2 (getRealIP r)
           \<and> sessions g2 = sessions g"
proof -
  obtain rem g2 where f: "recordFailedAttempt (getRealIP r) (Later env) g1 = (rem, g2)"
    by (cases "recordFailedAttempt (getRealIP r) (Later env) g1")
  have h: "handleLogin env r g = (Unauthorized ''Invalid password'' rem, g2, [])"
    using assms f by (auto simp: handleLogin_def)
  have s: "sessions g1 = sessions g"
    using assms(2) by (rule checkRateLimit_sessions)
  show ?thesis
    using h s recordFailedAttempt_counts [OF f] by simp
qed

theorem password_length_gate_witness:
  "(\<exists>g2. handleLogin
       \<lparr>Decode = (\<lambda>b. Some b), CompareHashAndPassword = (\<lambda>p. True),
        newToken = ''t1'', newCSRF = ''c1'', Now = 1000 * Second, Later = 1001 * Second\<rparr>
       \<lparr>Method = ''POST'', Path = ''/api/login'', SessionCookie = None, X_CSRF_Token = [],
        X_Forwarded_For = [], X_Real_IP = [], RemoteHost = ''10.0.0.9'',
        Body = replicate 73 CHR ''a''\<rparr>
       \<lparr>sessions = Map.empty, attempts = Map.empty\<rparr>
     = (Unauthorized ''Invalid password'' 4, g2, [])
     \<and> failures g2 ''10.0.0.9'' = 1 \<and> sessions g2 = Map.empty)
   \<and> (\<exists>g2. handleLogin
       \<lparr>Decode = (\<lambda>b. Some b), CompareHashAndPassword = (\<lambda>p. True),
        newToken = ''t1'', newCSRF = ''c1'', Now = 1000 * Second, Later = 1001 * Second\<rparr>
       \<lparr>Method = ''POST'', Path = ''/api/login'', SessionCookie = None, X_CSRF_Token = [],
        X_Forwarded_For = [], X_Real_IP = [], RemoteHost = ''10.0.0.9'', Body = []\<rparr>
       \<lparr>sessions = Map.empty, attempts = Map.empty\<rparr>
     = (Unauthorized ''Invalid password'' 4, g2, [])
     \<and> failures g2 ''10.0.0.9'' = 1 \<and> sessions g2 = Map.empty)"
proof -
  let ?e = "\<lparr>Decode = (\<lambda>b. Some b), CompareHashAndPassword = (\<lambda>p. True),
        newToken = ''t1'', newCSRF = ''c1'', Now = 1000 * Second, Later = 1001 * Second\<rparr>"
  let ?g = "\<lparr>sessions = Map.empty, attempts = Map.empty\<rparr>"
  let ?r = "\<lambda>b. \<lparr>Method = ''POST'', Path = ''/api/login'', SessionCookie = None, X_CSRF_Token = [],
        X_Forwarded_For = [], X_Real_IP = [], RemoteHost = ''10.0.0.9'', Body = b\<rparr>"
  have m: "Method (?r b) = ''POST''" for b
    by simp
  have ip: "getRealIP (?r b) = ''10.0.0.9''" for b
    by (simp add: getRealIP_def)
  have c: "checkRateLimit (getRealIP (?r b)) (Now ?e) ?g = ((maxLoginAttempts, zeroTime, True), ?g)" for b
    by (simp add: checkRateLimit_def)
  have d: "Decode ?e (Body (?r b)) = Some b" for b
    by simp
  have l1: "length (replicate 73 CHR ''a'') = 0 \<or> length (replicate 73 CHR ''a'') > 72"
    by simp
  have l2: "length ([] :: string) = 0 \<or> length ([] :: string) > 72"
    by simp
  have z: "failures ?g ''10.0.0.9'' = 0"
    by (simp add: failures_def)
  from password_length_gate [OF m c d l1] ip z
  have 1: "\<exists>g2. handleLogin ?e (?r (replicate 73 CHR ''a'')) ?g
             = (Unauthorized ''Invalid password'' 4, g2, [])
           \<and> failures g2 ''10.0.0.9'' = 1 \<and> sessions g2 = Map.empty"
    by (auto simp: maxLoginAttempts_def)
  from password_length_gate [OF m c d l2] ip z
  have 2: "\<exists>g2. handleLogin ?e (?r []) ?g
             = (Unauthorized ''Invalid password'' 4, g2, [])
           \<and> failures g2 ''10.0.0.9'' = 1 \<and> sessions g2 = Map.empty"
    by (auto simp: maxLoginAttempts_def)
  from 1 2 show ?thesis
    by simp
qed


lemma getSession_valid_keeps:
  "getSession tok now g = (Some s, g') \<Longrightarrow> g' = g \<and> sessions g tok = Some s
     \<and> now - created s \<le> sessionMaxAge"
  by (auto simp: getSession_def Since_def split: option.splits if_splits)

lemma getSessionFromRequest_valid_keeps:
  "getSessionFromRequest r now g = (Some s, g') \<Longrightarrow> g' = g"
  by (auto simp: getSessionFromRequest_def dest: getSession_valid_keeps split: option.splits)

text \<open>
  C8, as the code has it. Let a request carry a valid session and a method other than
  GET, HEAD and OPTIONS. When its path is a static asset, \<open>AuthMiddleware\<close> calls the
  next handler without looking at the session or at the header. Otherwise, when the header
  \<open>X-CSRF-Token\<close> is missing or differs from the CSRF token of the session, the answer is
  403 and the next handler is not called; when the header is there and equals the token,
  the next handler is called. The tables are unchanged in each case.
\<close>

theorem csrf_check:
  assumes "getSessionFromRequest r now g = (Some s, g')"
    and "Method r \<noteq> ''GET''" and "Method r \<noteq> ''HEAD''" and "Method r \<noteq> ''OPTIONS''"
  shows "(isStaticAsset (Path r) \<longrightarrow> AuthMiddleware now r g = (Next, g))
     \<and> (\<not> isStaticAsset (Path r) \<and> (X_CSRF_Token r = [] \<or> X_CSRF_Token r \<noteq> csrf s) \<longrightarrow>
          AuthMiddleware now r g = (Answer 403 ''Invalid or missing CSRF token'', g))
     \<and> (\<not> isStaticAsset (Path r) \<and> X_CSRF_Token r \<noteq> [] \<and> X_CSRF_Token r = csrf s \<longrightarrow>
          AuthMiddleware now r g = (Next, g))"
  using assms getSessionFromRequest_valid_keeps [OF assms(1)]
  by (auto simp: AuthMiddleware_def)

lemma kill_is_no_asset: "\<not> isStaticAsset ''/api/kill''"
  by (simp add: isStaticAsset_def)

lemma script_is_asset: "isStaticAsset ''/app.js''"
  by (simp add: isStaticAsset_def)

theorem csrf_check_witness:
  "AuthMiddleware (2000 * Second)
     \<lparr>Method = ''POST'', Path = ''/api/kill'', SessionCookie = Some ''tok'', X_CSRF_Token = [],
      X_Forwarded_For = [], X_Real_IP = [], RemoteHost = ''10.0.0.9'', Body = []\<rparr>
     \<lparr>sessions = [''tok'' \<mapsto> \<lparr>token = ''tok'', csrf = ''c0ffee'', created = 1000 * Second\<rparr>],
      attempts = Map.empty\<rparr>
   = (Answer 403 ''Invalid or missing CSRF token'',
      \<lparr>sessions = [''tok'' \<mapsto> \<lparr>token = ''tok'', csrf = ''c0ffee'', created = 1000 * Second\<rparr>],
       attempts = Map.empty\<rparr>)
   \<and> AuthMiddleware (2000 * Second)
     \<lparr>Method = ''POST'', Path = ''/api/kill'', SessionCookie = Some ''tok'', X_CSRF_Token = ''beef'',
      X_Forwarded_For = [], X_Real_IP = [], RemoteHost = ''10.0.0.9'', Body = []\<rparr>
     \<lparr>sessions = [''tok'' \<mapsto> \<lparr>token = ''tok'', csrf = ''c0ffee'', created = 1000 * Second\<rparr>],
      attempts = Map.empty\<rparr>
   = (Answer 403 ''Invalid or missing CSRF token'',
      \<lparr>sessions = [''tok'' \<mapsto> \<lparr>token = ''tok'', csrf = ''c0ffee'', created = 1000 * Second\<rparr>],
       attempts = Map.empty\<rparr>)
   \<and> AuthMiddleware (2000 * Second)
     \<lparr>Method = ''POST'', Path = ''/api/kill'', SessionCookie = Some ''tok'', X_CSRF_Token = ''c0ffee'',
      X_Forwarded_For = [], X_Real_IP = [], RemoteHost = ''10.0.0.9'', Body = []\<rparr>
     \<lparr>sessions = [''tok'' \<mapsto> \<lparr>token = ''tok'', csrf = ''c0ffee'', created = 1000 * Second\<rparr>],
      attempts = Map.empty\<rparr>
   = (Next,
      \<lparr>sessions = [''tok'' \<mapsto> \<lparr>token = ''tok'', csrf = ''c0ffee'', created = 1000 * Second\<rparr>],
       attempts = Map.empty\<rparr>)"
proof -
  let ?g = "\<lparr>sessions = [''tok'' \<mapsto> \<lparr>token = ''tok'', csrf = ''c0ffee'', created = 1000 * Second\<rparr>],
      attempts = Map.empty\<rparr>"
  let ?s = "\<lparr>token = ''tok'', csrf = ''c0ffee'', created = 1000 * Second\<rparr>"
  let ?r = "\<lambda>h. \<lparr>Method = ''POST'', Path = ''/api/kill'', SessionCookie = Some ''tok'', X_CSRF_Token = h,
      X_Forwarded_For = [], X_Real_IP = [], RemoteHost = ''10.0.0.9'', Body = []\<rparr>"
  have v: "getSessionFromRequest (?r h) (2000 * Second) ?g = (Some ?s, ?g)" for h
    by (simp add: getSessionFromRequest_def getSession_def Since_def sessionMaxAge_def
        Hour_def Minute_def Second_def)
  have m: "Method (?r h) \<noteq> ''GET''" "Method (?r h) \<noteq> ''HEAD''" "Method (?r h) \<noteq> ''OPTIONS''" for h
    by simp_all
  have n: "\<not> isStaticAsset (Path (?r h))" for h
    using kill_is_no_asset by simp
  from csrf_check [OF v m, of "[]"] n [of "[]"]
  have 1: "AuthMiddleware (2000 * Second) (?r []) ?g
             = (Answer 403 ''Invalid or missing CSRF token'', ?g)"
    by simp
  from csrf_check [OF v m, of "''beef''"] n [of "''beef''"]
  have 2: "AuthMiddleware (2000 * Second) (?r ''beef'') ?g
             = (Answer 403 ''Invalid or missing CSRF token'', ?g)"
    by simp
  from csrf_check [OF v m, of "''c0ffee''"] n [of "''c0ffee''"]
  have 3: "AuthMiddleware (2000 * Second) (?r ''c0ffee'') ?g = (Next, ?g)"
    by simp
  from 1 2 3 show ?thesis
    by simp
qed

text \<open>
  C8 as stated fails for the path of a static asset: a POST of \<open>/app.js\<close> with a valid
  session and without the header \<open>X-CSRF-Token\<close> is handed to the next handler.
\<close>

theorem csrf_static_asset_counterexample:
  "getSessionFromRequest
     \<lparr>Method = ''POST'', Path = ''/app.js'', SessionCookie = Some ''tok'', X_CSRF_Token = [],
      X_Forwarded_For = [], X_Real_IP = [], RemoteHost = ''10.0.0.9'', Body = []\<rparr>
     (2000 * Second)
     \<lparr>sessions = [''tok'' \<mapsto> \<lparr>token = ''tok'', csrf = ''c0ffee'', created = 1000 * Second\<rparr>],
      attempts = Map.empty\<rparr>
   = (Some \<lparr>token = ''tok'', csrf = ''c0ffee'', created = 1000 * Second\<rparr>,
      \<lparr>sessions = [''tok'' \<mapsto> \<lparr>token = ''tok'', csrf = ''c0ffee'', created = 1000 * Second\<rparr>],
       attempts = Map.empty\<rparr>)
   \<and> AuthMiddleware (2000 * Second)
     \<lparr>Method = ''POST'', Path = ''/app.js'', SessionCookie = Some ''tok'', X_CSRF_Token = [],
      X_Forwarded_For = [], X_Real_IP = [], RemoteHost = ''10.0.0.9'', Body = []\<rparr>
     \<lparr>sessions = [''tok'' \<mapsto> \<lparr>token = ''tok'', csrf = ''c0ffee'', created = 1000 * Second\<rparr>],
      attempts = Map.empty\<rparr>
   = (Next,
      \<lparr>sessions = [''tok'' \<mapsto> \<lparr>token = ''tok'', csrf = ''c0ffee'', created = 1000 * Second\<rparr>],
       attempts = Map.empty\<rparr>)"
  using script_is_asset
  by (simp add: AuthMiddleware_def getSessionFromRequest_def getSession_def Since_def
      sessionMaxAge_def Hour_def Minute_def Second_def)

section \<open>Properties of the process tracker\<close>

lemma deref_append: "deref store r = Some c \<Longrightarrow> deref (store @ xs) r = Some c"
  by (auto simp: deref_def nth_append split: ref.splits if_splits)

lemma sample_row_pid: "pid_r (sample_row env p r new store) = 0 \<or> pid_r (sample_row env p r new store) = p"
  by (simp add: sample_row_def zero_result_def split: option.splits sampled.splits)

lemma sample_row_isNew: "isNew (sample_row env p r new store) \<Longrightarrow> new"
  by (simp add: sample_row_def zero_result_def split: option.splits sampled.splits)

lemma sample_row_cp:
  "pid_r (sample_row env p r new store) \<noteq> 0 \<Longrightarrow> cp (sample_row env p r new store) = r"
  by (simp add: sample_row_def zero_result_def split: option.splits sampled.splits)

lemma sample_row_ok:
  "deref store r = Some c \<Longrightarrow> Sampling env p = Sample cpu mb pct \<Longrightarrow>
   sample_row env p r new store
     = \<lparr>info = \<lparr>PID = p, Name = name c, CPU_p = cpu, MemMB = mb, MemPct = pct, User = user c\<rparr>,
        pid_r = p, cp = r, isNew = new\<rparr>"
  by (simp add: sample_row_def)

lemma zero_result_pid: "pid_r zero_result = 0"
  by (simp add: zero_result_def)

text \<open>One visit, when the snapshot holds a record for the process id.\<close>

lemma visit_cached:
  "snap p = Some r \<Longrightarrow>
   visit env snap p acc =
     (if pid_r (sample_row env p r False (objects acc)) \<noteq> 0
      then acc\<lparr>pInfos := pInfos acc @ [info (sample_row env p r False (objects acc))]\<rparr>
      else acc)"
  using sample_row_isNew [of env p r False "objects acc"]
  by (auto simp: visit_def processOnePID_def Let_def)

text \<open>One visit, when it does not.\<close>

lemma visit_new:
  "snap p = None \<Longrightarrow>
   visit env snap p acc =
     (if \<not> NewProcess env p then acc
      else
        (let store' = objects acc @ [\<lparr>proc = p, name = resolve_name env p, user = Username env p\<rparr>];
             r = sample_row env p (Addr (length (objects acc))) True store';
             acc' = acc\<lparr>objects := store', resolved := resolved acc @ [p]\<rparr>
         in if pid_r r \<noteq> 0
            then acc'\<lparr>pInfos := pInfos acc @ [info r],
                      newEntries := (if isNew r then (newEntries acc)(pid_r r \<mapsto> cp r)
                                     else newEntries acc)\<rparr>
            else acc'))"
  by (auto simp: visit_def processOnePID_def Let_def zero_result_pid)

lemma visit_objects: "\<exists>xs. objects (visit env snap p acc) = objects acc @ xs"
  by (cases "snap p") (auto simp: visit_cached visit_new Let_def)

lemma visit_pInfos: "\<exists>xs. pInfos (visit env snap p acc) = pInfos acc @ xs"
  by (cases "snap p") (auto simp: visit_cached visit_new Let_def)

lemma visit_resolved:
  "q \<in> set (resolved (visit env snap p acc)) \<Longrightarrow>
   q \<in> set (resolved acc) \<or> (q = p \<and> snap p = None \<and> NewProcess env p)"
  by (cases "snap p") (auto simp: visit_cached visit_new Let_def split: if_splits)

lemma visit_newEntries:
  "newEntries (visit env snap p acc) q = Some r \<Longrightarrow>
   newEntries acc q = Some r \<or> (q = p \<and> snap p = None \<and> p \<noteq> 0)"
  using sample_row_pid [of env p "Addr (length (objects acc))" True
      "objects acc @ [\<lparr>proc = p, name = resolve_name env p, user = Username env p\<rparr>]"]
  by (cases "snap p") (auto simp: visit_cached visit_new Let_def split: if_splits)

lemma visit_newEntries_keeps:
  "newEntries acc q \<noteq> None \<Longrightarrow> newEntries (visit env snap p acc) q \<noteq> None"
  by (cases "snap p") (auto simp: visit_cached visit_new Let_def split: if_splits)

lemma fold_objects: "\<exists>xs. objects (fold (visit env snap) ps acc) = objects acc @ xs"
proof (induction ps arbitrary: acc)
  case Nil
  then show ?case by simp
next
  case (Cons p ps)
  obtain xs where "objects (visit env snap p acc) = objects acc @ xs"
    using visit_objects by blast
  moreover obtain ys where
    "objects (fold (visit env snap) ps (visit env snap p acc)) = objects (visit env snap p acc) @ ys"
    using Cons.IH by blast
  ultimately show ?case by simp
qed

lemma fold_pInfos: "\<exists>xs. pInfos (fold (visit env snap) ps acc) = pInfos acc @ xs"
proof (induction ps arbitrary: acc)
  case Nil
  then show ?case by simp
next
  case (Cons p ps)
  obtain xs where "pInfos (visit env snap p acc) = pInfos acc @ xs"
    using visit_pInfos by blast
  moreover obtain ys where
    "pInfos (fold (visit env snap) ps (visit env snap p acc)) = pInfos (visit env snap p acc) @ ys"
    using Cons.IH by blast
  ultimately show ?case by simp
qed

lemma fold_resolved:
  "q \<in> set (resolved (fold (visit env snap) ps acc)) \<Longrightarrow>
   q \<in> set (resolved acc) \<or> (q \<in> set ps \<and> snap q = None \<and> NewProcess env q)"
proof (induction ps arbitrary: acc)
  case Nil
  then show ?case by simp
next
  case (Cons p ps)
  from Cons.prems have "q \<in> set (resolved (fold (visit env snap) ps (visit env snap p acc)))"
    by simp
  then have "q \<in> set (resolved (visit env snap p acc))
      \<or> (q \<in> set ps \<and> snap q = None \<and> NewProcess env q)"
    by (rule Cons.IH)
  then show ?case
    using visit_resolved [of q env snap p acc] by auto
qed

lemma fold_newEntries:
  "newEntries (fold (visit env snap) ps acc) q = Some r \<Longrightarrow>
   newEntries acc q = Some r \<or> (q \<in> set ps \<and> snap q = None \<and> q \<noteq> 0)"
proof (induction ps arbitrary: acc)
  case Nil
  then show ?case by simp
next
  case (Cons p ps)
  from Cons.prems have "newEntries (fold (visit env snap) ps (visit env snap p acc)) q = Some r"
    by simp
  then have "newEntries (visit env snap p acc) q = Some r
      \<or> (q \<in> set ps \<and> snap q = None \<and> q \<noteq> 0)"
    by (rule Cons.IH)
  then show ?case
    using visit_newEntries [of env snap p acc q r] by auto
qed

lemma fold_newEntries_keeps:
  "newEntries acc q \<noteq> None \<Longrightarrow> newEntries (fold (visit env snap) ps acc) q \<noteq> None"
proof (induction ps arbitrary: acc)
  case Nil
  then show ?case by simp
next
  case (Cons p ps)
  have "newEntries (visit env snap p acc) q \<noteq> None"
    using Cons.prems by (rule visit_newEntries_keeps)
  then have "newEntries (fold (visit env snap) ps (visit env snap p acc)) q \<noteq> None"
    by (rule Cons.IH)
  then show ?case by simp
qed


lemma deref_fresh: "deref (store @ [x]) (Addr (length store)) = Some x"
  by (simp add: deref_def)

lemma visit_creates:
  assumes "snap p = None" and "NewProcess env p" and "p \<noteq> 0"
    and "Sampling env p = Sample cpu mb pct"
  shows "newEntries (visit env snap p acc) p = Some (Addr (length (objects acc)))"
  using assms
  by (simp add: visit_new Let_def sample_row_ok [OF deref_fresh])

lemma fold_creates:
  assumes "p \<in> set ps" and "snap p = None" and "NewProcess env p" and "p \<noteq> 0"
    and "Sampling env p = Sample cpu mb pct"
  shows "newEntries (fold (visit env snap) ps acc) p \<noteq> None"
  using assms(1)
proof (induction ps arbitrary: acc)
  case Nil
  then show ?case by simp
next
  case (Cons q qs)
  show ?case
  proof (cases "q = p")
    case True
    have "newEntries (visit env snap p acc) p \<noteq> None"
      using assms(2,3,4,5) by (simp add: visit_creates)
    then have "newEntries (fold (visit env snap) qs (visit env snap p acc)) p \<noteq> None"
      by (rule fold_newEntries_keeps)
    with True show ?thesis by simp
  next
    case False
    with Cons.prems have "p \<in> set qs" by simp
    then have "newEntries (fold (visit env snap) qs (visit env snap q acc)) p \<noteq> None"
      by (rule Cons.IH)
    then show ?thesis by simp
  qed
qed

lemma fold_serves_cached:
  assumes "snap p = Some r" and "p \<noteq> 0" and "Sampling env p = Sample cpu mb pct"
  shows "p \<in> set ps \<Longrightarrow> deref (objects acc) r = Some c \<Longrightarrow>
     \<lparr>PID = p, Name = name c, CPU_p = cpu, MemMB = mb, MemPct = pct, User = user c\<rparr>
       \<in> set (pInfos (fold (visit env snap) ps acc))"
proof (induction ps arbitrary: acc)
  case Nil
  then show ?case by simp
next
  case (Cons q qs)
  show ?case
  proof (cases "q = p")
    case True
    have "pInfos (visit env snap p acc)
            = pInfos acc @ [\<lparr>PID = p, Name = name c, CPU_p = cpu, MemMB = mb, MemPct = pct,
                             User = user c\<rparr>]"
      using assms Cons.prems(2) by (simp add: visit_cached sample_row_ok)
    moreover obtain xs where
      "pInfos (fold (visit env snap) qs (visit env snap p acc)) = pInfos (visit env snap p acc) @ xs"
      using fold_pInfos by blast
    ultimately show ?thesis
      using True by simp
  next
    case False
    with Cons.prems have "p \<in> set qs" by simp
    moreover have "deref (objects (visit env snap q acc)) r = Some c"
      using visit_objects [of env snap q acc] Cons.prems(2) by (auto simp: deref_append)
    ultimately have
      "\<lparr>PID = p, Name = name c, CPU_p = cpu, MemMB = mb, MemPct = pct, User = user c\<rparr>
         \<in> set (pInfos (fold (visit env snap) qs (visit env snap q acc)))"
      by (rule Cons.IH)
    then show ?thesis by simp
  qed
qed

text \<open>What a pass that enumerates the process ids gives.\<close>

lemma pass_unfold:
  assumes "Pids env = Some pids"
  shows "GetProcesses True env t =
     (let acc = fold (visit env (procCache t)) pids
                  \<lparr>pInfos = [], newEntries = Map.empty, objects = heap t, resolved = []\<rparr>
      in (pInfos acc,
          \<lparr>procCache = (procCache t ++ newEntries acc) |` set pids,
           heap = objects acc, cachedProcs = pInfos acc\<rparr>,
          resolved acc))"
  using assms by (simp add: GetProcesses_def)

lemma pass_evicts:
  assumes "Pids env = Some pids" and "GetProcesses True env t = (rows, t', res)"
    and "p \<notin> set pids"
  shows "procCache t' p = None"
  using assms by (auto simp: pass_unfold Let_def restrict_map_def)

lemma pass_keeps:
  assumes "Pids env = Some pids" and "GetProcesses True env t = (rows, t', res)"
    and "procCache t p = Some r" and "p \<in> set pids"
  shows "procCache t' p = Some r" and "p \<notin> set res"
    and "deref (heap t) r = Some c \<Longrightarrow> deref (heap t') r = Some c"
    and "deref (heap t) r = Some c \<Longrightarrow> p \<noteq> 0 \<Longrightarrow> Sampling env p = Sample cpu mb pct \<Longrightarrow>
         \<lparr>PID = p, Name = name c, CPU_p = cpu, MemMB = mb, MemPct = pct, User = user c\<rparr> \<in> set rows"
proof -
  let ?init = "\<lparr>pInfos = [], newEntries = Map.empty, objects = heap t, resolved = []\<rparr>
                 :: 'a pass"
  let ?acc = "fold (visit env (procCache t)) pids ?init"
  have t': "t' = \<lparr>procCache = (procCache t ++ newEntries ?acc) |` set pids,
                  heap = objects ?acc, cachedProcs = pInfos ?acc\<rparr>"
    and res: "res = resolved ?acc" and rows: "rows = pInfos ?acc"
    using assms(1,2) by (auto simp: pass_unfold Let_def)
  have none: "newEntries ?acc p = None"
  proof (cases "newEntries ?acc p")
    case None
    then show ?thesis .
  next
    case (Some r')
    from fold_newEntries [OF Some] show ?thesis
      using assms(3) by simp
  qed
  show "procCache t' p = Some r"
    using t' none assms(3,4) by (simp add: restrict_map_def map_add_def)
  show "p \<notin> set res"
  proof
    assume "p \<in> set res"
    then have "p \<in> set (resolved ?acc)"
      using res by simp
    from fold_resolved [OF this] show False
      using assms(3) by simp
  qed
  obtain xs where xs: "objects ?acc = heap t @ xs"
    using fold_objects [where acc = ?init and env = env and snap = "procCache t" and ps = pids]
    by auto
  show "deref (heap t) r = Some c \<Longrightarrow> deref (heap t') r = Some c"
    using t' xs by (simp add: deref_append)
  show "deref (heap t) r = Some c \<Longrightarrow> p \<noteq> 0 \<Longrightarrow> Sampling env p = Sample cpu mb pct \<Longrightarrow>
         \<lparr>PID = p, Name = name c, CPU_p = cpu, MemMB = mb, MemPct = pct, User = user c\<rparr> \<in> set rows"
    using rows assms(3,4)
      fold_serves_cached [where snap = "procCache t" and acc = ?init and ps = pids and p = p
        and r = r and env = env and c = c and cpu = cpu and mb = mb and pct = pct]
    by simp
qed

lemma pass_resolves_uncached:
  assumes "Pids env = Some pids" and "GetProcesses True env t = (rows, t', res)"
    and "p \<in> set res"
  shows "p \<in> set pids \<and> procCache t p = None"
proof -
  let ?init = "\<lparr>pInfos = [], newEntries = Map.empty, objects = heap t, resolved = []\<rparr>
                 :: 'a pass"
  have "p \<in> set (resolved (fold (visit env (procCache t)) pids ?init))"
    using assms by (auto simp: pass_unfold Let_def)
  from fold_resolved [OF this] show ?thesis
    by simp
qed

lemma pass_caches:
  assumes "Pids env = Some pids" and "GetProcesses True env t = (rows, t', res)"
    and "p \<in> set pids"
    and "procCache t p \<noteq> None
         \<or> (NewProcess env p \<and> p \<noteq> 0 \<and> (\<exists>cpu mb pct. Sampling env p = Sample cpu mb pct))"
  shows "procCache t' p \<noteq> None"
proof (cases "procCache t p")
  case (Some r)
  then show ?thesis
    using pass_keeps(1) [OF assms(1,2) Some assms(3)] by simp
next
  case None
  with assms(4) obtain cpu mb pct where n: "NewProcess env p" "p \<noteq> 0"
      and s: "Sampling env p = Sample cpu mb pct"
    by auto
  let ?init = "\<lparr>pInfos = [], newEntries = Map.empty, objects = heap t, resolved = []\<rparr>
                 :: 'a pass"
  have "newEntries (fold (visit env (procCache t)) pids ?init) p \<noteq> None"
    using assms(3) None n s by (rule fold_creates)
  then show ?thesis
    using assms(1,2,3) by (auto simp: pass_unfold Let_def restrict_map_def map_add_def)
qed


text \<open>The definitions that evaluate a pass on given process ids.\<close>

lemmas pass_eval =
  GetProcesses_def visit_def processOnePID_def sample_row_def deref_def zero_result_def
  Let_def restrict_map_def map_add_def

text \<open>
  C5, as the code has it. Take two passes in a row that both enumerate the process ids.
  After the second pass the cache holds no record for a process id that the second pass
  did not enumerate. A process id that has a record in the cache after the first pass and
  is enumerated by the second keeps that record, at the same address and with the same
  content; the second pass does not resolve its name and owner again, and the row it
  gives for that process id carries the name and owner of the record. A process id
  enumerated by the first pass has a record after it when it had one before, or when the
  first pass made one and sampled it without error (the process id not being 0). A pass
  resolves name and owner only for enumerated process ids that have no record in the
  cache.
\<close>

theorem tracker_two_passes:
  assumes "Pids env1 = Some pids1" and "GetProcesses True env1 t0 = (rows1, t1, res1)"
    and "Pids env2 = Some pids2" and "GetProcesses True env2 t1 = (rows2, t2, res2)"
  shows "(\<forall>p. p \<notin> set pids2 \<longrightarrow> procCache t2 p = None)
     \<and> (\<forall>p r. procCache t1 p = Some r \<and> p \<in> set pids2 \<longrightarrow>
           procCache t2 p = Some r \<and> p \<notin> set res2
           \<and> (\<forall>c. deref (heap t1) r = Some c \<longrightarrow>
                 deref (heap t2) r = Some c
                 \<and> (\<forall>cpu mb pct. p \<noteq> 0 \<and> Sampling env2 p = Sample cpu mb pct \<longrightarrow>
                       \<lparr>PID = p, Name = name c, CPU_p = cpu, MemMB = mb, MemPct = pct,
                        User = user c\<rparr> \<in> set rows2)))
     \<and> (\<forall>p. p \<in> set pids1
             \<and> (procCache t0 p \<noteq> None
                  \<or> (NewProcess env1 p \<and> p \<noteq> 0
                      \<and> (\<exists>cpu mb pct. Sampling env1 p = Sample cpu mb pct))) \<longrightarrow>
           procCache t1 p \<noteq> None)
     \<and> (\<forall>p. p \<in> set res2 \<longrightarrow> p \<in> set pids2 \<and> procCache t1 p = None)"
proof (intro conjI allI impI)
  fix p
  assume "p \<notin> set pids2"
  then show "procCache t2 p = None"
    using assms(3,4) by (rule pass_evicts [rotated 2])
next
  fix p r
  assume "procCache t1 p = Some r \<and> p \<in> set pids2"
  then have c: "procCache t1 p = Some r" and i: "p \<in> set pids2"
    by simp_all
  show "procCache t2 p = Some r"
    using assms(3,4) c i by (rule pass_keeps(1))
  show "p \<notin> set res2"
    using assms(3,4) c i by (rule pass_keeps(2))
  fix c'
  assume d: "deref (heap t1) r = Some c'"
  show "deref (heap t2) r = Some c'"
    using assms(3,4) c i d by (rule pass_keeps(3))
  fix cpu mb pct
  assume "p \<noteq> 0 \<and> Sampling env2 p = Sample cpu mb pct"
  then have "p \<noteq> 0" and "Sampling env2 p = Sample cpu mb pct"
    by simp_all
  with assms(3,4) c i d
  show "\<lparr>PID = p, Name = name c', CPU_p = cpu, MemMB = mb, MemPct = pct, User = user c'\<rparr>
          \<in> set rows2"
    by (rule pass_keeps(4))
next
  fix p
  assume "p \<in> set pids1
             \<and> (procCache t0 p \<noteq> None
                  \<or> (NewProcess env1 p \<and> p \<noteq> 0
                      \<and> (\<exists>cpu mb pct. Sampling env1 p = Sample cpu mb pct)))"
  then show "procCache t1 p \<noteq> None"
    using pass_caches [OF assms(1,2)] by blast
next
  fix p
  assume "p \<in> set res2"
  then show "p \<in> set pids2" and "procCache t1 p = None"
    using pass_resolves_uncached [OF assms(3,4)] by blast+
qed

theorem tracker_two_passes_witness:
  "procCache (fst (snd (GetProcesses True
       \<lparr>Pids = Some [2, 3], NewProcess = (\<lambda>p. True), Name_of = (\<lambda>p. ''proc''),
        Cmdline = (\<lambda>p. None), Username = (\<lambda>p. ''root''),
        Sampling = (\<lambda>p. Sample (1::int) 2 3)\<rparr>
       (fst (snd (GetProcesses True
       \<lparr>Pids = Some [1, 2, 3], NewProcess = (\<lambda>p. True), Name_of = (\<lambda>p. ''proc''),
        Cmdline = (\<lambda>p. None), Username = (\<lambda>p. ''root''),
        Sampling = (\<lambda>p. Sample (1::int) 2 3)\<rparr>
       \<lparr>procCache = Map.empty, heap = [], cachedProcs = []\<rparr>)))))) 1 = None
   \<and> procCache (fst (snd (GetProcesses True
       \<lparr>Pids = Some [1, 2, 3], NewProcess = (\<lambda>p. True), Name_of = (\<lambda>p. ''proc''),
        Cmdline = (\<lambda>p. None), Username = (\<lambda>p. ''root''),
        Sampling = (\<lambda>p. Sample (1::int) 2 3)\<rparr>
       \<lparr>procCache = Map.empty, heap = [], cachedProcs = []\<rparr>))) 2 = Some (Addr 1)
   \<and> procCache (fst (snd (GetProcesses True
       \<lparr>Pids = Some [2, 3], NewProcess = (\<lambda>p. True), Name_of = (\<lambda>p. ''proc''),
        Cmdline = (\<lambda>p. None), Username = (\<lambda>p. ''root''),
        Sampling = (\<lambda>p. Sample (1::int) 2 3)\<rparr>
       (fst (snd (GetProcesses True
       \<lparr>Pids = Some [1, 2, 3], NewProcess = (\<lambda>p. True), Name_of = (\<lambda>p. ''proc''),
        Cmdline = (\<lambda>p. None), Username = (\<lambda>p. ''root''),
        Sampling = (\<lambda>p. Sample (1::int) 2 3)\<rparr>
       \<lparr>procCache = Map.empty, heap = [], cachedProcs = []\<rparr>)))))) 2 = Some (Addr 1)
   \<and> 2 \<notin> set (snd (snd (GetProcesses True
       \<lparr>Pids = Some [2, 3], NewProcess = (\<lambda>p. True), Name_of = (\<lambda>p. ''proc''),
        Cmdline = (\<lambda>p. None), Username = (\<lambda>p. ''root''),
        Sampling = (\<lambda>p. Sample (1::int) 2 3)\<rparr>
       (fst (snd (GetProcesses True
       \<lparr>Pids = Some [1, 2, 3], NewProcess = (\<lambda>p. True), Name_of = (\<lambda>p. ''proc''),
        Cmdline = (\<lambda>p. None), Username = (\<lambda>p. ''root''),
        Sampling = (\<lambda>p. Sample (1::int) 2 3)\<rparr>
       \<lparr>procCache = Map.empty, heap = [], cachedProcs = []\<rparr>))))))
   \<and> procCache (fst (snd (GetProcesses True
       \<lparr>Pids = Some [2, 3], NewProcess = (\<lambda>p. True), Name_of = (\<lambda>p. ''proc''),
        Cmdline = (\<lambda>p. None), Username = (\<lambda>p. ''root''),
        Sampling = (\<lambda>p. Sample (1::int) 2 3)\<rparr>
       (fst (snd (GetProcesses True
       \<lparr>Pids = Some [1, 2, 3], NewProcess = (\<lambda>p. True), Name_of = (\<lambda>p. ''proc''),
        Cmdline = (\<lambda>p. None), Username = (\<lambda>p. ''root''),
        Sampling = (\<lambda>p. Sample (1::int) 2 3)\<rparr>
       \<lparr>procCache = Map.empty, heap = [], cachedProcs = []\<rparr>)))))) 3 = Some (Addr 2)"
proof -
  let ?e1 = "\<lparr>Pids = Some [1, 2, 3], NewProcess = (\<lambda>p. True), Name_of = (\<lambda>p. ''proc''),
        Cmdline = (\<lambda>p. None), Username = (\<lambda>p. ''root''),
        Sampling = (\<lambda>p. Sample (1::int) 2 3)\<rparr>"
  let ?e2 = "\<lparr>Pids = Some [2, 3], NewProcess = (\<lambda>p. True), Name_of = (\<lambda>p. ''proc''),
        Cmdline = (\<lambda>p. None), Username = (\<lambda>p. ''root''),
        Sampling = (\<lambda>p. Sample (1::int) 2 3)\<rparr>"
  let ?t0 = "\<lparr>procCache = Map.empty, heap = [], cachedProcs = []\<rparr> :: int tracker"
  let ?P1 = "GetProcesses True ?e1 ?t0"
  let ?P2 = "GetProcesses True ?e2 (fst (snd ?P1))"
  have p1: "Pids ?e1 = Some [1, 2, 3]" and p2: "Pids ?e2 = Some [2, 3]"
    by simp_all
  have g1: "?P1 = (fst ?P1, fst (snd ?P1), snd (snd ?P1))"
    and g2: "?P2 = (fst ?P2, fst (snd ?P2), snd (snd ?P2))"
    by simp_all
  note T = tracker_two_passes [OF p1 g1 p2 g2]
  have c2: "procCache (fst (snd ?P1)) 2 = Some (Addr 1)"
    and c3: "procCache (fst (snd ?P1)) 3 = Some (Addr 2)"
    by (simp_all add: pass_eval)
  have "procCache (fst (snd ?P2)) 1 = None"
    using T [THEN conjunct1, THEN spec, of 1] by simp
  moreover have "procCache (fst (snd ?P2)) 2 = Some (Addr 1) \<and> 2 \<notin> set (snd (snd ?P2))"
    using T [THEN conjunct2, THEN conjunct1, THEN spec, THEN spec, of 2 "Addr 1"] c2 by simp
  moreover have "procCache (fst (snd ?P2)) 3 = Some (Addr 2)"
    using T [THEN conjunct2, THEN conjunct1, THEN spec, THEN spec, of 3 "Addr 2"] c3 by simp
  ultimately show ?thesis
    using c2 by simp
qed

text \<open>
  C5 as stated fails when the first sample of a new record fails. The first pass
  enumerates 1, 2 and 3 and \<open>MemoryInfo\<close> gives an error for 2: name and owner of 2 are
  resolved, and no record for 2 is cached. The second pass enumerates 2 and 3: name and
  owner of 2 are resolved again, for a new record.
\<close>

theorem tracker_resolves_again_counterexample:
  "Pids \<lparr>Pids = Some [1, 2, 3], NewProcess = (\<lambda>p. True), Name_of = (\<lambda>p. ''proc''),
        Cmdline = (\<lambda>p. None), Username = (\<lambda>p. ''root''),
        Sampling = (\<lambda>p. if p = 2 then MemoryInfo_error else Sample (1::int) 2 3)\<rparr> = Some [1, 2, 3]
   \<and> Pids \<lparr>Pids = Some [2, 3], NewProcess = (\<lambda>p. True), Name_of = (\<lambda>p. ''proc''),
        Cmdline = (\<lambda>p. None), Username = (\<lambda>p. ''root''),
        Sampling = (\<lambda>p. Sample (1::int) 2 3)\<rparr> = Some [2, 3]
   \<and> snd (snd (GetProcesses True
       \<lparr>Pids = Some [1, 2, 3], NewProcess = (\<lambda>p. True), Name_of = (\<lambda>p. ''proc''),
        Cmdline = (\<lambda>p. None), Username = (\<lambda>p. ''root''),
        Sampling = (\<lambda>p. if p = 2 then MemoryInfo_error else Sample (1::int) 2 3)\<rparr>
       \<lparr>procCache = Map.empty, heap = [], cachedProcs = []\<rparr>)) = [1, 2, 3]
   \<and> procCache (fst (snd (GetProcesses True
       \<lparr>Pids = Some [1, 2, 3], NewProcess = (\<lambda>p. True), Name_of = (\<lambda>p. ''proc''),
        Cmdline = (\<lambda>p. None), Username = (\<lambda>p. ''root''),
        Sampling = (\<lambda>p. if p = 2 then MemoryInfo_error else Sample (1::int) 2 3)\<rparr>
       \<lparr>procCache = Map.empty, heap = [], cachedProcs = []\<rparr>))) 2 = None
   \<and> snd (snd (GetProcesses True
       \<lparr>Pids = Some [2, 3], NewProcess = (\<lambda>p. True), Name_of = (\<lambda>p. ''proc''),
        Cmdline = (\<lambda>p. None), Username = (\<lambda>p. ''root''),
        Sampling = (\<lambda>p. Sample (1::int) 2 3)\<rparr>
       (fst (snd (GetProcesses True
       \<lparr>Pids = Some [1, 2, 3], NewProcess = (\<lambda>p. True), Name_of = (\<lambda>p. ''proc''),
        Cmdline = (\<lambda>p. None), Username = (\<lambda>p. ''root''),
        Sampling = (\<lambda>p. if p = 2 then MemoryInfo_error else Sample (1::int) 2 3)\<rparr>
       \<lparr>procCache = Map.empty, heap = [], cachedProcs = []\<rparr>))))) = [2]
   \<and> procCache (fst (snd (GetProcesses True
       \<lparr>Pids = Some [2, 3], NewProcess = (\<lambda>p. True), Name_of = (\<lambda>p. ''proc''),
        Cmdline = (\<lambda>p. None), Username = (\<lambda>p. ''root''),
        Sampling = (\<lambda>p. Sample (1::int) 2 3)\<rparr>
       (fst (snd (GetProcesses True
       \<lparr>Pids = Some [1, 2, 3], NewProcess = (\<lambda>p. True), Name_of = (\<lambda>p. ''proc''),
        Cmdline = (\<lambda>p. None), Username = (\<lambda>p. ''root''),
        Sampling = (\<lambda>p. if p = 2 then MemoryInfo_error else Sample (1::int) 2 3)\<rparr>
       \<lparr>procCache = Map.empty, heap = [], cachedProcs = []\<rparr>)))))) 2 = Some (Addr 3)"
  by (simp add: pass_eval)

section \<open>Properties of the storage breakdown\<close>













text \<open>The definitions that evaluate a breakdown on given readings.\<close>

lemmas breakdown_eval =
  breakdown_of_def used_categories_def scan_disk_def scan_disk_df_def categories_total_def
  known_total_def int64_def toGB_def Let_def



text \<open>The excess is as large as the usage that \<open>df\<close> reports for the system volume.\<close>

lemma breakdown_excess_unbounded:
  "0 \<le> x \<Longrightarrow>
   categories_total
     (breakdown_of [\<lparr>Filesystem = ''/dev/disk3s1s1'', MountPoint = ''/'', TotalGB_d = x,
                      UsedGB_d = x, FreeGB_d = 0, UsedPct = 100\<rparr>]
        (1000000000, 0, 1000000000) None)
   - (UsedGB (breakdown_of [\<lparr>Filesystem = ''/dev/disk3s1s1'', MountPoint = ''/'', TotalGB_d = x,
                      UsedGB_d = x, FreeGB_d = 0, UsedPct = 100\<rparr>]
        (1000000000, 0, 1000000000) None)
      + FreeGB (breakdown_of [\<lparr>Filesystem = ''/dev/disk3s1s1'', MountPoint = ''/'', TotalGB_d = x,
                      UsedGB_d = x, FreeGB_d = 0, UsedPct = 100\<rparr>]
        (1000000000, 0, 1000000000) None)) = x"
  by (simp add: breakdown_eval)

end
